theory Spec2Isabelle
  imports Complex_Main "HOL-Library.Word"
begin

section \<open>Built-in integral types of the host\<close>

text \<open>
  The library stores a fixed-point number in a built-in integral type. A built-in
  integral type is given by its signedness and its width in bits; the host is taken
  to be an LP64 platform with 8, 16, 32 and 64 bit integers, two's complement,
  \<open>int\<close> of 32 bits and \<open>std::size_t\<close>, \<open>std::intmax_t\<close>, \<open>std::uintmax_t\<close> of 64 bits.
  The value of an object of such a type is modelled by the mathematical integer it
  denotes.
\<close>

datatype int_type = Int_type (is_signed: bool) (width: nat)

type_synonym size_t = "64 word"

definition intmax_t :: int_type where
  "intmax_t = Int_type True 64"

definition uintmax_t :: int_type where
  "uintmax_t = Int_type False 64"

text \<open>\<open>std::numeric_limits<T>::digits\<close>, \<open>min()\<close> and \<open>max()\<close>.\<close>

definition digits :: "int_type \<Rightarrow> nat" where
  "digits T = (if is_signed T then width T - 1 else width T)"

definition type_min :: "int_type \<Rightarrow> int" where
  "type_min T = (if is_signed T then - (2 ^ (width T - 1)) else 0)"

definition type_max :: "int_type \<Rightarrow> int" where
  "type_max T = 2 ^ digits T - 1"

definition in_range :: "int_type \<Rightarrow> int \<Rightarrow> bool" where
  "in_range T v \<longleftrightarrow> type_min T \<le> v \<and> v \<le> type_max T"

text \<open>
  \<open>static_cast<T>(v)\<close> and every implicit conversion of an integer \<open>v\<close> to the
  integral type \<open>T\<close>: the value modulo \<open>2 ^ width T\<close>, read in two's complement when
  \<open>T\<close> is signed.
\<close>

definition cast :: "int_type \<Rightarrow> int \<Rightarrow> int" where
  "cast T v = (if is_signed T then signed_take_bit (width T - 1) v else take_bit (width T) v)"

text \<open>
  Integral promotion (types narrower than \<open>int\<close> become \<open>int\<close>) and the usual
  arithmetic conversions, which give the type in which a binary operator works.
\<close>

definition promote :: "int_type \<Rightarrow> int_type" where
  "promote T = (if width T < 32 then Int_type True 32 else T)"

definition common_type :: "int_type \<Rightarrow> int_type \<Rightarrow> int_type" where
  "common_type T1 T2 =
     (let A = promote T1; B = promote T2 in
      if is_signed A = is_signed B then (if width B \<le> width A then A else B)
      else if is_signed A then (if width A \<le> width B then B else A)
      else (if width B \<le> width A then A else B))"

text \<open>
  The shifts \<open>a << s\<close> and \<open>a >> s\<close> on an operand of type \<open>T\<close>. Both work in the
  promoted type and are undefined (\<open>None\<close>) when the count reaches its width. The left
  shift keeps the low bits (two's complement wrap-around), the right shift of a
  negative value is arithmetic.
\<close>

definition shift_left :: "int_type \<Rightarrow> int \<Rightarrow> nat \<Rightarrow> int option" where
  "shift_left T a s =
     (if s < width (promote T) then Some (cast (promote T) (a * 2 ^ s)) else None)"

definition shift_right :: "int_type \<Rightarrow> int \<Rightarrow> nat \<Rightarrow> int option" where
  "shift_right T a s =
     (if s < width (promote T) then Some (a div 2 ^ s) else None)"

text \<open>
  \<open>boost::int_t<Bits>::least\<close> and \<open>boost::uint_t<Bits>::least\<close> (Boost.Integer, an
  external library): the smallest built-in signed (unsigned) integral type with at
  least \<open>Bits\<close> bits, the sign bit included; no type, hence a compile-time error, when
  \<open>Bits\<close> exceeds the widest integer type.
\<close>

definition host_widths :: "nat list" where
  "host_widths = [8, 16, 32, 64]"

definition least_width :: "nat \<Rightarrow> nat option" where
  "least_width b = List.find (\<lambda>w. b \<le> w) host_widths"

definition int_t_least :: "nat \<Rightarrow> int_type option" where
  "int_t_least b = map_option (Int_type True) (least_width b)"

definition uint_t_least :: "nat \<Rightarrow> int_type option" where
  "uint_t_least b = map_option (Int_type False) (least_width b)"

section \<open>The class template \<open>libq::fixed_point\<close> (fixed\_point.hpp)\<close>

text \<open>
  Modelled from the spec: the policy classes, declared in arithmetics\_safety.hpp, which
  is not among the sources. The spec names three behaviours; the default arguments of
  the aliases \<open>Q\<close> and \<open>UQ\<close>, \<open>overflow_exception_policy\<close> and
  \<open>underflow_exception_policy\<close>, are the raising ones.
\<close>

datatype policy = Ignore | Saturate | Raise

text \<open>
  An instantiation \<open>fixed_point<value_type, n, f, e, op, up>\<close>. The template
  parameters \<open>n\<close> and \<open>f\<close> are of type \<open>std::size_t\<close>, \<open>e\<close> is an \<open>int\<close>.
\<close>

record fixed_point_type =
  storage_type :: int_type
  bits_for_integral :: size_t
  bits_for_fractional :: size_t
  scaling_factor_exponent :: int
  overflow_policy :: policy
  underflow_policy :: policy

definition number_of_significant_bits :: "fixed_point_type \<Rightarrow> size_t" where
  "number_of_significant_bits F = bits_for_integral F + bits_for_fractional F"

definition largest_type :: "int_type \<Rightarrow> int_type" where
  "largest_type T = (if is_signed T then intmax_t else uintmax_t)"

text \<open>
  Instantiating the class template: the \<open>static_assert\<close> "too big word size is
  required" rejects the instantiation (\<open>None\<close>) when the significant bits exceed the
  digits of the largest integer type.
\<close>

definition fixed_point ::
  "int_type \<Rightarrow> size_t \<Rightarrow> size_t \<Rightarrow> int \<Rightarrow> policy \<Rightarrow> policy \<Rightarrow> fixed_point_type option" where
  "fixed_point T n f e op up =
     (if unat (n + f) \<le> digits (largest_type T)
      then Some \<lparr>storage_type = T, bits_for_integral = n, bits_for_fractional = f,
                 scaling_factor_exponent = e, overflow_policy = op, underflow_policy = up\<rparr>
      else None)"

text \<open>
  \<open>largest_stored_integer\<close> is \<open>boost::low_bits_mask_t<n + f>::sig_bits\<close>, the mask of
  the \<open>n + f\<close> low bits; \<open>least_stored_integer\<close> is
  \<open>is_signed * (-largest_stored_integer - 1)\<close>.
\<close>

definition largest_stored_integer :: "fixed_point_type \<Rightarrow> int" where
  "largest_stored_integer F = 2 ^ unat (number_of_significant_bits F) - 1"

definition least_stored_integer :: "fixed_point_type \<Rightarrow> int" where
  "least_stored_integer F =
     (if is_signed (storage_type F) then - largest_stored_integer F - 1 else 0)"

text \<open>\<open>scale\<close> is \<open>EXP2N(f)\<close>, that is \<open>std::uintmax_t(1u) << f\<close>.\<close>

definition scale :: "fixed_point_type \<Rightarrow> int" where
  "scale F = 2 ^ unat (bits_for_fractional F)"

text \<open>
  The policies are informed by the static call \<open>raise_event()\<close>. An operation is
  modelled by the list of the events it raises, in order, together with the stored
  integer it returns when no policy leaves the operation by throwing; \<open>None\<close> stands
  for an operation whose behaviour C++ leaves undefined.
\<close>

datatype event = Overflow | Underflow

type_synonym stored = "(event list \<times> int) option"

definition raise_if :: "bool \<Rightarrow> event \<Rightarrow> event list" where
  "raise_if c ev = (if c then [ev] else [])"

text \<open>
  \<open>wrap(_val)\<close>: the guards \<open>_val < 0\<close> and \<open>_val > 0\<close> make both comparisons with the
  bounds exact whatever the integral type of \<open>_val\<close> is.
\<close>

definition wrap :: "fixed_point_type \<Rightarrow> int \<Rightarrow> event list \<times> int" where
  "wrap F v =
     (raise_if ((v < 0 \<and> v < least_stored_integer F) \<or> (v > 0 \<and> v > largest_stored_integer F))
        Overflow,
      cast (storage_type F) v)"

text \<open>
  Unary \<open>operator -\<close>. The predicate \<open>does_unary_negation_overflow\<close> comes from
  arithmetics\_safety.hpp, which is not among the sources, and is a parameter here. For
  an unsigned format the difference is formed in \<open>std::uintmax_t\<close>; for a signed one
  the negation works in the promoted type and is undefined at its minimum.
\<close>

definition operator_negate ::
  "(int \<Rightarrow> bool) \<Rightarrow> fixed_point_type \<Rightarrow> int \<Rightarrow> stored" where
  "operator_negate does_unary_negation_overflow F x =
     (let evs = raise_if (does_unary_negation_overflow x) Overflow in
      if \<not> is_signed (storage_type F) then
        (let (evs', r) = wrap F (cast uintmax_t (largest_stored_integer F - x))
         in Some (evs @ evs', r))
      else if x = type_min (promote (storage_type F)) then None
      else (let (evs', r) = wrap F (- x) in Some (evs @ evs', r)))"

subsection \<open>Construction from arithmetic objects\<close>

text \<open>
  A \<open>double\<close> is modelled by the real number it denotes and the floating-point
  operations \<open>*\<close>, \<open>+\<close>, \<open>-\<close>, \<open>std::pow\<close>, \<open>std::floor\<close> and \<open>std::ceil\<close> by the exact
  ones; a literal is the decimal fraction that is written. \<open>pow2 e\<close> is
  \<open>std::pow(2.0, e)\<close> for an integral exponent.
\<close>

definition pow2 :: "int \<Rightarrow> real" where
  "pow2 e = (if 0 \<le> e then 2 ^ nat e else 1 / 2 ^ nat (- e))"

text \<open>
  \<open>static_cast<T>(d)\<close> of a floating-point \<open>d\<close>: the fraction is discarded, and the
  behaviour is undefined when the truncated value cannot be represented in \<open>T\<close>.
\<close>

definition float_truncate :: "real \<Rightarrow> int" where
  "float_truncate d = (if 0 \<le> d then \<lfloor>d\<rfloor> else \<lceil>d\<rceil>)"

definition float_cast :: "int_type \<Rightarrow> real \<Rightarrow> int option" where
  "float_cast T d = (if in_range T (float_truncate d) then Some (float_truncate d) else None)"

text \<open>\<open>calc_stored_integer_from(_x, std::true_type)\<close>: the floating-point case.\<close>

definition calc_stored_integer_from :: "fixed_point_type \<Rightarrow> real \<Rightarrow> stored" where
  "calc_stored_integer_from F x =
     (let val = x * pow2 (scaling_factor_exponent F) in
      if x > 0 then
        (case float_cast (storage_type F) (of_int \<lfloor>val * of_int (scale F) + 0.5\<rfloor>) of
           None \<Rightarrow> None
         | Some converted \<Rightarrow> Some (raise_if (converted < 0) Overflow, converted))
      else
        (case float_cast (storage_type F) (of_int \<lceil>val * of_int (scale F) - 0.5\<rceil>) of
           None \<Rightarrow> None
         | Some converted \<Rightarrow> Some ([], converted)))"

text \<open>\<open>calc_stored_integer_from(_x, std::false_type)\<close>: the integral case.\<close>

definition calc_stored_integer_from_integral :: "fixed_point_type \<Rightarrow> int \<Rightarrow> stored" where
  "calc_stored_integer_from_integral F x =
     (case float_cast (storage_type F) (of_int x * pow2 (scaling_factor_exponent F)) of
        None \<Rightarrow> None
      | Some v \<Rightarrow>
          (case shift_left (storage_type F) v (unat (bits_for_fractional F)) of
             None \<Rightarrow> None
           | Some r \<Rightarrow> Some ([], cast (storage_type F) r)))"

text \<open>\<open>to_floating_point()\<close>: \<open>scaling_factor() * value() / scale\<close>.\<close>

definition scaling_factor :: "fixed_point_type \<Rightarrow> real" where
  "scaling_factor F = pow2 (- scaling_factor_exponent F)"

definition to_floating_point :: "fixed_point_type \<Rightarrow> int \<Rightarrow> real" where
  "to_floating_point F v = scaling_factor F * of_int v / of_int (scale F)"

subsection \<open>Normalisation between formats\<close>

text \<open>
  \<open>int(f)\<close> for a \<open>std::size_t\<close> and the two static shift counts of \<open>normalize\<close>, each
  computed in \<open>std::size_t\<close> from an \<open>int\<close> and a \<open>std::size_t\<close> operand.
\<close>

definition to_int :: "size_t \<Rightarrow> int" where
  "to_int w = cast (Int_type True 32) (uint w)"

definition shifts_left :: "fixed_point_type \<Rightarrow> fixed_point_type \<Rightarrow> nat" where
  "shifts_left F1 F =
     unat ((word_of_int (to_int (bits_for_fractional F) + scaling_factor_exponent F) :: size_t)
           - (word_of_int (scaling_factor_exponent F1) + bits_for_fractional F1))"

definition shifts_right :: "fixed_point_type \<Rightarrow> fixed_point_type \<Rightarrow> nat" where
  "shifts_right F1 F =
     unat ((word_of_int (scaling_factor_exponent F1) + bits_for_fractional F1)
           - (word_of_int (to_int (bits_for_fractional F) + scaling_factor_exponent F) :: size_t))"

text \<open>
  \<open>normalize(_x, std::false_type)\<close>, the left shift. The operand is converted to the
  storage type of the destination \<open>F\<close>, shifted, and shifted back; the comparison of
  \<open>_x.value()\<close>, of the storage type of the source \<open>F1\<close>, with the value shifted back
  works in the common type of the two.
\<close>

definition normalize_left :: "fixed_point_type \<Rightarrow> fixed_point_type \<Rightarrow> int \<Rightarrow> stored" where
  "normalize_left F1 F x =
     (let T = storage_type F; C = common_type (storage_type F1) T; s = shifts_left F1 F in
      case shift_left T (cast T x) s of
        None \<Rightarrow> None
      | Some shifted \<Rightarrow>
          (let normalized = cast T shifted in
           case shift_right T normalized s of
             None \<Rightarrow> None
           | Some back \<Rightarrow> Some (raise_if (cast C x \<noteq> cast C back) Overflow, normalized)))"

text \<open>\<open>normalize(_x, std::true_type)\<close>, the right shift, done in the type of the source.\<close>

definition normalize_right :: "fixed_point_type \<Rightarrow> fixed_point_type \<Rightarrow> int \<Rightarrow> stored" where
  "normalize_right F1 F x =
     (case shift_right (storage_type F1) x (shifts_right F1 F) of
        None \<Rightarrow> None
      | Some shifted \<Rightarrow>
          (let normalized = cast (storage_type F) shifted in
           Some (raise_if (x \<noteq> 0 \<and> normalized = 0) Underflow, normalized)))"

text \<open>
  The converting constructor (and the converting assignment): it selects the overload
  by the constant \<open>int(f1) + e1 - int(f) - e > 0\<close>.
\<close>

definition normalize_fixed :: "fixed_point_type \<Rightarrow> fixed_point_type \<Rightarrow> int \<Rightarrow> stored" where
  "normalize_fixed F1 F x =
     (if to_int (bits_for_fractional F1) + scaling_factor_exponent F1
         - to_int (bits_for_fractional F) - scaling_factor_exponent F > 0
      then normalize_right F1 F x
      else normalize_left F1 F x)"

subsection \<open>Addition and subtraction\<close>

text \<open>
  Modelled from the spec: the traits class \<open>sum_traits\<close> (details/sum\_traits.inl, not
  among the sources). For a single operand type the sum has one more integer bit and
  the same fractional bits and exponent; it is stored in the smallest host integer
  with that many bits, plus the sign bit of a signed type, and when there is none the
  operation is closed and the sum has the type of the operand.
\<close>

definition sum_traits :: "fixed_point_type \<Rightarrow> fixed_point_type" where
  "sum_traits F =
     (let n = bits_for_integral F + 1;
          b = unat n + unat (bits_for_fractional F)
      in case (if is_signed (storage_type F) then int_t_least (b + 1) else uint_t_least b) of
           None \<Rightarrow> F
         | Some W \<Rightarrow> F\<lparr>storage_type := W, bits_for_integral := n\<rparr>)"

text \<open>
  Modelled from the spec: \<open>does_addition_overflow\<close> and \<open>does_subtraction_overflow\<close>
  (arithmetics\_safety.hpp, not among the sources). An addition overflows when the sign
  bits of the operands agree and differ from the sign bit of the result, on unsigned
  operands when it carries; a subtraction is treated alike, with a borrow.
\<close>

definition does_addition_overflow :: "fixed_point_type \<Rightarrow> int \<Rightarrow> int \<Rightarrow> bool" where
  "does_addition_overflow F a b =
     (let r = cast (storage_type F) (a + b) in
      if is_signed (storage_type F) then (a < 0) = (b < 0) \<and> (r < 0) \<noteq> (a < 0)
      else r < a)"

definition does_subtraction_overflow :: "fixed_point_type \<Rightarrow> int \<Rightarrow> int \<Rightarrow> bool" where
  "does_subtraction_overflow F a b =
     (let r = cast (storage_type F) (a - b) in
      if is_signed (storage_type F) then (a < 0) \<noteq> (b < 0) \<and> (r < 0) \<noteq> (a < 0)
      else a < b)"

text \<open>
  The built-in \<open>+\<close> and \<open>-\<close> on two operands of type \<open>T\<close>: they work in the promoted
  type, wrap around when it is unsigned and are undefined on signed overflow.
\<close>

definition builtin_arith :: "int_type \<Rightarrow> int \<Rightarrow> int option" where
  "builtin_arith T r =
     (if is_signed (promote T) then (if in_range (promote T) r then Some r else None)
      else Some (cast (promote T) r))"

text \<open>
  \<open>operator +\<close> and \<open>operator -\<close>, applied to the right operand \<open>y\<close> once it is
  converted to the class of the left one (\<open>this_class const converted(_x)\<close>).
\<close>

definition operator_plus :: "fixed_point_type \<Rightarrow> int \<Rightarrow> int \<Rightarrow> stored" where
  "operator_plus F x y =
     (let sum_type = sum_traits F; word_type = storage_type sum_type in
      case builtin_arith word_type (cast word_type x + cast word_type y) of
        None \<Rightarrow> None
      | Some r \<Rightarrow>
          (let (evs, v) = wrap sum_type (cast word_type r)
           in Some (raise_if (does_addition_overflow F x y) Overflow @ evs, v)))"

definition operator_minus :: "fixed_point_type \<Rightarrow> int \<Rightarrow> int \<Rightarrow> stored" where
  "operator_minus F x y =
     (let diff_type = sum_traits F; word_type = storage_type diff_type in
      case builtin_arith word_type (cast word_type x - cast word_type y) of
        None \<Rightarrow> None
      | Some r \<Rightarrow>
          (let (evs, v) = wrap diff_type (cast word_type r)
           in Some (raise_if (does_subtraction_overflow F x y) Overflow @ evs, v)))"

subsection \<open>Multiplication and division\<close>

text \<open>Sequencing of two operations: the events of the first come first.\<close>

definition bind_run ::
  "(event list \<times> 'a) option \<Rightarrow> ('a \<Rightarrow> (event list \<times> 'b) option) \<Rightarrow> (event list \<times> 'b) option" where
  "bind_run m k =
     (case m of
        None \<Rightarrow> None
      | Some (evs, a) \<Rightarrow> (case k a of None \<Rightarrow> None | Some (evs', b) \<Rightarrow> Some (evs @ evs', b)))"

text \<open>
  What \<open>operator *\<close> and \<open>operator /\<close> use of their traits classes \<open>mult_of\<close> and
  \<open>div_of\<close>.
\<close>

record promotion_traits =
  promoted_type :: fixed_point_type
  promoted_storage_type :: int_type
  is_expandable :: bool

text \<open>
  Modelled from the spec: the traits class \<open>mult_of\<close> (details/mult\_of.inl, not among the
  sources). The product is signed if either operand is; its integer bits, fractional
  bits and exponents are the sums of those of the operands; it is expandable when a
  host integer with that many bits (plus the sign bit) exists, and closed, with the
  type of the left operand, otherwise.
\<close>

definition mult_of :: "fixed_point_type \<Rightarrow> fixed_point_type \<Rightarrow> promotion_traits" where
  "mult_of A B =
     (let n = bits_for_integral A + bits_for_integral B;
          f = bits_for_fractional A + bits_for_fractional B;
          b = unat n + unat f
      in case (if is_signed (storage_type A) \<or> is_signed (storage_type B)
               then int_t_least (b + 1) else uint_t_least b) of
           None \<Rightarrow> \<lparr>promoted_type = A, promoted_storage_type = storage_type A,
                     is_expandable = False\<rparr>
         | Some W \<Rightarrow>
             \<lparr>promoted_type = A\<lparr>storage_type := W, bits_for_integral := n,
                  bits_for_fractional := f,
                  scaling_factor_exponent := scaling_factor_exponent A + scaling_factor_exponent B\<rparr>,
              promoted_storage_type = W, is_expandable = True\<rparr>)"

text \<open>
  \<open>operator *\<close>. The predicate \<open>does_multiplication_overflow\<close> (arithmetics\_safety.hpp)
  is a parameter. The built-in product works in the promoted word type.
\<close>

definition operator_multiply ::
  "(int \<Rightarrow> int \<Rightarrow> bool) \<Rightarrow> promotion_traits \<Rightarrow> fixed_point_type \<Rightarrow> int \<Rightarrow> int \<Rightarrow> stored" where
  "operator_multiply does_multiplication_overflow t B x y =
     (let word_type = promoted_storage_type t in
      case builtin_arith word_type (cast word_type x * cast word_type y) of
        None \<Rightarrow> None
      | Some p \<Rightarrow>
          (case shift_right word_type p
                  (if is_expandable t then 0 else unat (bits_for_fractional B)) of
             None \<Rightarrow> None
           | Some r \<Rightarrow>
               (let (evs, v) = wrap (promoted_type t) r
                in Some (raise_if (does_multiplication_overflow x y) Overflow @ evs, v))))"

text \<open>
  The built-in \<open>/\<close> and \<open>%\<close> truncate towards zero; the division is undefined for a zero
  divisor and, on a signed type, for the minimum divided by \<open>-1\<close>.
\<close>

definition cpp_div :: "int \<Rightarrow> int \<Rightarrow> int" where
  "cpp_div a b = sgn a * sgn b * (\<bar>a\<bar> div \<bar>b\<bar>)"

definition cpp_rem :: "int \<Rightarrow> int \<Rightarrow> int" where
  "cpp_rem a b = a - b * cpp_div a b"



section \<open>The quotient type (quotient.hpp)\<close>

text \<open>
  An instantiation \<open>core::fixed_point<T, n, f, op, up>\<close> of the class template that
  quotient.hpp declares. Here \<open>n\<close> counts all the bits of the number but the sign:
  the word that holds an \<open>n\<close> bit signed number is \<open>boost::int_t<n + 1>::least\<close>.
\<close>

record core_fixed_point =
  core_T :: int_type
  core_n :: size_t
  core_f :: size_t
  core_op :: policy
  core_up :: policy

record quotient_info =
  quotient_word_type :: int_type
  quotient_fixed_point :: core_fixed_point

definition quotient_is_signed :: "core_fixed_point \<Rightarrow> bool" where
  "quotient_is_signed A = is_signed (core_T A)"

definition quotient_is_closed :: "core_fixed_point \<Rightarrow> core_fixed_point \<Rightarrow> bool" where
  "quotient_is_closed A B =
     (let max_type = (if quotient_is_signed A then intmax_t else uintmax_t)
      in \<not> unat (core_n A + core_n B) \<le> digits max_type)"

text \<open>
  \<open>quotient<fixed_point<T1, n1, f1, op1, up1>, fixed_point<T2, n2, f2, op2, up2> >\<close>:
  its members \<open>word_type\<close> and \<open>type\<close>. \<open>eval_if\<close> instantiates \<open>boost::int_t\<close> only
  for an operation that is not closed.
\<close>

definition quotient_of :: "core_fixed_point \<Rightarrow> core_fixed_point \<Rightarrow> quotient_info option" where
  "quotient_of A B =
     (if quotient_is_closed A B then
        Some \<lparr>quotient_word_type = core_T A, quotient_fixed_point = A\<rparr>
      else
        (case (if quotient_is_signed A then int_t_least (unat (core_n A + core_n B + 1))
               else uint_t_least (unat (core_n A + core_n B))) of
           None \<Rightarrow> None
         | Some W \<Rightarrow>
             Some \<lparr>quotient_word_type = W,
                   quotient_fixed_point =
                     \<lparr>core_T = W, core_n = core_n A + core_n B,
                      core_f = core_f A + (core_n B - core_f B),
                      core_op = core_op A, core_up = core_up A\<rparr>\<rparr>))"

text \<open>
  Modelled from the spec: the traits class \<open>div_of\<close> (details/div\_of.inl, not among the
  sources), which gives \<open>operator /\<close> its result type. It is \<open>core::quotient\<close> on the two
  operand types, each entering with all its significant bits for the parameter \<open>n\<close>
  of quotient.hpp; the exponent, which quotient.hpp does not have, is the difference
  of the exponents.
\<close>

definition to_core :: "fixed_point_type \<Rightarrow> core_fixed_point" where
  "to_core F =
     \<lparr>core_T = storage_type F, core_n = number_of_significant_bits F,
      core_f = bits_for_fractional F, core_op = overflow_policy F,
      core_up = underflow_policy F\<rparr>"

definition div_of :: "fixed_point_type \<Rightarrow> fixed_point_type \<Rightarrow> promotion_traits option" where
  "div_of A B =
     (case quotient_of (to_core A) (to_core B) of
        None \<Rightarrow> None
      | Some q \<Rightarrow>
          Some \<lparr>promoted_type =
                  (if quotient_is_closed (to_core A) (to_core B) then A
                   else \<lparr>storage_type = quotient_word_type q,
                         bits_for_integral = core_n (quotient_fixed_point q) - core_f (quotient_fixed_point q),
                         bits_for_fractional = core_f (quotient_fixed_point q),
                         scaling_factor_exponent =
                           scaling_factor_exponent A - scaling_factor_exponent B,
                         overflow_policy = core_op (quotient_fixed_point q),
                         underflow_policy = core_up (quotient_fixed_point q)\<rparr>),
                promoted_storage_type = quotient_word_type q,
                is_expandable = (\<not> quotient_is_closed (to_core A) (to_core B))\<rparr>)"

section \<open>The hyperbolic normalisation constant (hyperbolic\_scale.inl)\<close>

text \<open>
  \<open>lut<n, Q>::hyperbolic_scale_with_repeated_iterations(_n)\<close>. The loop variable \<open>i\<close>
  of \<open>BOOST_FOREACH\<close> is a copy of the element of the range, so that \<open>i++\<close> changes
  neither the range nor the factor, which is computed from \<open>i\<close> before the increment.
  The state of the loop is the pair of \<open>scale\<close> and \<open>repeated\<close>. The range
  \<open>irange(1, _n)\<close> requires \<open>1 \<le> _n\<close>. The loop is written for any factor, so that
  its schedule can be run on factors other than square roots.
\<close>

definition hyperbolic_factor :: "nat \<Rightarrow> real" where
  "hyperbolic_factor i = sqrt (1 - pow2 (- 2 * int i))"

definition hyperbolic_scale_step ::
  "(nat \<Rightarrow> 'a::comm_monoid_mult) \<Rightarrow> nat \<Rightarrow> 'a \<times> nat \<Rightarrow> nat \<Rightarrow> 'a \<times> nat" where
  "hyperbolic_scale_step factor n st i =
     (let scale = fst st * factor i; repeated = snd st in
      if i = repeated \<and> i \<noteq> n - 1
      then (scale * factor i, 3 * repeated + 1)
      else (scale, repeated))"

definition hyperbolic_scale_loop :: "(nat \<Rightarrow> 'a::comm_monoid_mult) \<Rightarrow> nat \<Rightarrow> 'a" where
  "hyperbolic_scale_loop factor n = fst (foldl (hyperbolic_scale_step factor n) (1, 4) [1..<n])"

definition hyperbolic_scale_with_repeated_iterations :: "nat \<Rightarrow> real" where
  "hyperbolic_scale_with_repeated_iterations n = hyperbolic_scale_loop hyperbolic_factor n"

text \<open>The repeated iterations 4, 13, 40, ...: each is three times the previous plus one.\<close>

fun repeated_iteration :: "nat \<Rightarrow> nat" where
  "repeated_iteration 0 = 4"
| "repeated_iteration (Suc k) = 3 * repeated_iteration k + 1"

text \<open>The two products of the schedule, and how they grow with the index.\<close>

definition single_factors :: "(nat \<Rightarrow> 'a::comm_monoid_mult) \<Rightarrow> nat \<Rightarrow> 'a" where
  "single_factors factor m = (\<Prod>i = 1..<m. factor i)"

definition repeated_factors :: "(nat \<Rightarrow> 'a::comm_monoid_mult) \<Rightarrow> nat \<Rightarrow> 'a" where
  "repeated_factors factor m = (\<Prod>i \<in> {i \<in> {1..<m}. i \<in> range repeated_iteration}. factor i)"

section \<open>Elementary functions\<close>

text \<open>
  The constants \<open>CONST_PI\<close>, \<open>CONST_2PI\<close>, \<open>CONST_PI_2\<close> and \<open>CONST_LOG2E\<close>, each
  constructed from its floating-point literal (fixed\_point.hpp, lines 588 to 604).
\<close>

definition CONST_PI :: "fixed_point_type \<Rightarrow> stored" where
  "CONST_PI F = calc_stored_integer_from F 3.14159265358979323846"

definition CONST_2PI :: "fixed_point_type \<Rightarrow> stored" where
  "CONST_2PI F = calc_stored_integer_from F 6.283185307179586"

definition CONST_PI_2 :: "fixed_point_type \<Rightarrow> stored" where
  "CONST_PI_2 F = calc_stored_integer_from F 1.57079632679489661923"

definition CONST_LOG2E :: "fixed_point_type \<Rightarrow> stored" where
  "CONST_LOG2E F = calc_stored_integer_from F 1.44269504088896340736"

text \<open>
  Modelled from the spec: \<open>std::fmod\<close> on fixed-point numbers (details/fmod.inl, not
  among the sources), the "\<open>\<theta> mod 2\<pi>\<close>" of the range reduction. As \<open>std::fmod\<close>, which it
  overloads, it is the remainder of the division that truncates, with the sign of the
  dividend: sin.inl calls the reduction "sign preserving". Both operands have the
  same format, so that it is the remainder of the stored integers.
\<close>

definition fmod :: "fixed_point_type \<Rightarrow> int \<Rightarrow> int \<Rightarrow> stored" where
  "fmod F x y = (if y = 0 then None else Some (wrap F (cpp_rem x y)))"

text \<open>
  The converting assignment \<open>operator =\<close>: \<open>normalize\<close>, then \<open>set_value_to\<close>, which
  checks the bounds of the format.
\<close>

definition set_value_to :: "fixed_point_type \<Rightarrow> int \<Rightarrow> event list \<times> int" where
  "set_value_to F x =
     (raise_if (x < least_stored_integer F \<or> x > largest_stored_integer F) Overflow, x)"

definition assign :: "fixed_point_type \<Rightarrow> fixed_point_type \<Rightarrow> int \<Rightarrow> stored" where
  "assign F1 F x = bind_run (normalize_fixed F1 F x) (\<lambda>v. Some (set_value_to F v))"

text \<open>
  The range reduction of \<open>std::sin\<close> (sin.inl, lines 18 to 36), which yields \<open>arg\<close> and
  \<open>sign\<close>. sin.inl is written against \<open>core::fixed_point\<close>, the class of which
  \<open>libq::fixed_point\<close> is the later form; its operators are those of fixed\_point.hpp.
  The predicate \<open>does_unary_negation_overflow\<close> is a parameter, as before.
\<close>

definition sin_range_reduction ::
  "(int \<Rightarrow> bool) \<Rightarrow> fixed_point_type \<Rightarrow> int \<Rightarrow> (event list \<times> int \<times> int) option" where
  "sin_range_reduction dnuo fp val =
     bind_run (CONST_PI fp) (\<lambda>pi.
     bind_run (CONST_2PI fp) (\<lambda>two_pi.
     bind_run (CONST_PI_2 fp) (\<lambda>pi_2.
     bind_run (fmod fp val two_pi) (\<lambda>m.
     bind_run (operator_minus fp pi m) (\<lambda>d.
     bind_run (normalize_fixed (sum_traits fp) fp d) (\<lambda>x.
     bind_run (operator_negate dnuo fp pi_2) (\<lambda>minus_pi_2.
       if x < minus_pi_2 then
         bind_run (operator_plus fp x pi) (\<lambda>s.
         bind_run (assign (sum_traits fp) fp s) (\<lambda>arg. Some ([], (arg, - 1))))
       else if x > pi_2 then
         bind_run (operator_minus fp x pi) (\<lambda>s.
         bind_run (assign (sum_traits fp) fp s) (\<lambda>arg. Some ([], (arg, - 1))))
       else Some ([], (x, 1)))))))))"

text \<open>
  \<open>std::sinh\<close> (sinh.inl), written against \<open>utils::number\<close>, an earlier name of the
  class; its operators are again those of fixed\_point.hpp. \<open>std::exp\<close> (CORDIC/exp.inl)
  is not among the sources: it is the parameter \<open>exp_fn\<close>, a function on stored integers,
  and \<open>E\<close> is the type of its result. \<open>sinh_arg\<close> is the first statement, the
  computation of \<open>arg\<close>, and \<open>sinh_of_exponents\<close> what is done with the two exponentials:
  their difference, converted to the type of the argument and shifted right by one bit.
\<close>

definition sinh_arg ::
  "(int \<Rightarrow> int \<Rightarrow> bool) \<Rightarrow> fixed_point_type \<Rightarrow> int \<Rightarrow> stored" where
  "sinh_arg dmo F val =
     bind_run (CONST_LOG2E F) (\<lambda>log2e.
     bind_run (operator_multiply dmo (mult_of F F) F val log2e) (\<lambda>p.
       normalize_fixed (promoted_type (mult_of F F)) F p))"

definition sinh_of_exponents :: "fixed_point_type \<Rightarrow> fixed_point_type \<Rightarrow> int \<Rightarrow> int \<Rightarrow> stored" where
  "sinh_of_exponents E F a b =
     bind_run (operator_minus E a b) (\<lambda>d.
     bind_run (normalize_fixed (sum_traits E) F d) (\<lambda>x.
     bind_run (map_option (Pair []) (shift_right (storage_type F) x 1)) (\<lambda>h.
       Some ([], cast (storage_type F) h))))"

definition sinh_number ::
  "(int \<Rightarrow> int \<Rightarrow> bool) \<Rightarrow> (int \<Rightarrow> bool) \<Rightarrow> (int \<Rightarrow> stored) \<Rightarrow> fixed_point_type \<Rightarrow>
   fixed_point_type \<Rightarrow> int \<Rightarrow> stored" where
  "sinh_number dmo dnuo exp_fn E F val =
     bind_run (sinh_arg dmo F val) (\<lambda>arg.
     bind_run (exp_fn arg) (\<lambda>a.
     bind_run (operator_negate dnuo F arg) (\<lambda>minus_arg.
     bind_run (exp_fn minus_arg) (\<lambda>b.
       sinh_of_exponents E F a b))))"






section \<open>The aliases\<close>

text \<open>The aliases \<open>Q\<close> and \<open>UQ\<close> (fixed\_point.hpp, lines 575 to 579).\<close>

definition Q :: "size_t \<Rightarrow> size_t \<Rightarrow> int \<Rightarrow> policy \<Rightarrow> policy \<Rightarrow> fixed_point_type option" where
  "Q n f e op up =
     (case int_t_least (unat (n + 1)) of
        None \<Rightarrow> None
      | Some T \<Rightarrow> fixed_point T (n - f) f e op up)"

definition UQ :: "size_t \<Rightarrow> size_t \<Rightarrow> int \<Rightarrow> policy \<Rightarrow> policy \<Rightarrow> fixed_point_type option" where
  "UQ n f e op up =
     (case uint_t_least (unat n) of
        None \<Rightarrow> None
      | Some T \<Rightarrow> fixed_point T (n - f) f e op up)"

section \<open>Properties of the built-in types\<close>

lemma least_width_Some:
  "least_width b = Some w \<Longrightarrow>
     w \<in> set host_widths \<and> b \<le> w \<and> (\<forall>v \<in> set host_widths. b \<le> v \<longrightarrow> w \<le> v)"
  by (auto simp: least_width_def host_widths_def split: if_splits)

lemma least_width_None: "least_width b = None \<longleftrightarrow> 64 < b"
  by (auto simp: least_width_def host_widths_def)

lemma cast_id: "in_range T v \<Longrightarrow> cast T v = v"
  unfolding in_range_def cast_def type_min_def type_max_def digits_def
  by (auto simp: signed_take_bit_int_eq_self_iff take_bit_int_eq_self_iff)

lemma cast_id_unsigned: "\<not> is_signed T \<Longrightarrow> 0 \<le> v \<Longrightarrow> v < 2 ^ width T \<Longrightarrow> cast T v = v"
  by (simp add: cast_def take_bit_int_eq_self)

lemma host_width_pos: "width T \<in> set host_widths \<Longrightarrow> 0 < width T"
  by (auto simp: host_widths_def)

lemma cast_take_bit:
  "0 < width T \<Longrightarrow> n \<le> width T \<Longrightarrow> take_bit n (cast T v) = take_bit n v"
  by (cases "width T") (simp_all add: cast_def take_bit_signed_take_bit min_def)

lemma cast_in_range: "0 < width T \<Longrightarrow> in_range T (cast T v)"
proof (cases "is_signed T")
  case True
  have "- (2 ^ (width T - 1)) \<le> signed_take_bit (width T - 1) v"
    by (rule signed_take_bit_int_greater_eq_minus_exp)
  moreover have "signed_take_bit (width T - 1) v < 2 ^ (width T - 1)"
    by (rule signed_take_bit_int_less_exp)
  ultimately show ?thesis using True
    by (simp add: in_range_def cast_def type_min_def type_max_def digits_def)
next
  case False
  have "take_bit (width T) v < 2 ^ width T" by (rule take_bit_int_less_exp)
  then show ?thesis using False
    by (simp add: in_range_def cast_def type_min_def type_max_def digits_def)
qed

lemma in_range_div:
  assumes "in_range T r"
  shows "in_range T (r div 2 ^ s)"
proof -
  have p: "(0::int) < 2 ^ s" by simp
  have hi: "0 \<le> type_max T" by (simp add: type_max_def)
  have lo: "type_min T \<le> 0" by (simp add: type_min_def)
  show ?thesis
  proof (cases "0 < r")
    case True
    then have "r div 2 ^ s \<le> r" by (rule int_div_le_self)
    moreover have "0 \<le> r div 2 ^ s" using True p by (simp add: pos_imp_zdiv_nonneg_iff)
    ultimately show ?thesis using assms lo by (simp add: in_range_def)
  next
    case False
    show ?thesis
    proof (cases "r = 0")
      case True
      then show ?thesis using lo hi by (simp add: in_range_def)
    next
      case False
      with \<open>\<not> 0 < r\<close> have neg: "r < 0" by simp
      from zdiv_mono2_neg [OF neg, of 1 "2 ^ s"] have "r \<le> r div 2 ^ s" by simp
      moreover have "r div 2 ^ s < 0" using neg p by (simp add: div_neg_pos_less0)
      ultimately show ?thesis using assms hi by (simp add: in_range_def)
    qed
  qed
qed

lemma cast_mult_take_bit:
  assumes "0 < width T"
  shows "take_bit (width T) (cast T x * y) = take_bit (width T) (x * y)"
proof -
  have "take_bit (width T) (cast T x * y) =
        take_bit (width T) (take_bit (width T) (cast T x) * take_bit (width T) y)"
    by (simp only: take_bit_mult)
  also have "take_bit (width T) (cast T x) = take_bit (width T) x"
    using assms by (simp add: cast_take_bit)
  also have "take_bit (width T) (take_bit (width T) x * take_bit (width T) y) =
        take_bit (width T) (x * y)"
    by (simp only: take_bit_mult)
  finally show ?thesis .
qed

lemma in_range_signed: "in_range (Int_type True w) v \<longleftrightarrow> - (2 ^ (w - 1)) \<le> v \<and> v < 2 ^ (w - 1)"
  by (auto simp: in_range_def type_min_def type_max_def digits_def)

lemma in_range_unsigned: "in_range (Int_type False w) v \<longleftrightarrow> 0 \<le> v \<and> v < 2 ^ w"
  by (auto simp: in_range_def type_min_def type_max_def digits_def)

lemma common_type_signed:
  assumes "w1 \<in> set host_widths" "w2 \<in> set host_widths"
  shows "common_type (Int_type True w1) (Int_type True w2) = Int_type True (max 32 (max w1 w2))"
  using assms by (auto simp: host_widths_def common_type_def promote_def)

lemma common_type_unsigned:
  assumes "w1 \<in> set host_widths" "w2 \<in> set host_widths"
  shows "common_type (Int_type False w1) (Int_type False w2) =
           (if max w1 w2 < 32 then Int_type True 32 else Int_type False (max w1 w2))"
  using assms by (auto simp: host_widths_def common_type_def promote_def)

lemma in_range_common:
  assumes same: "is_signed T1 = is_signed T"
    and host: "width T1 \<in> set host_widths" "width T \<in> set host_widths"
    and v: "in_range T1 v \<or> in_range T v"
  shows "in_range (common_type T1 T) v"
proof -
  obtain s w1 where T1: "T1 = Int_type s w1" by (cases T1)
  with same obtain w2 where T: "T = Int_type s w2" by (cases T) auto
  from host have w: "w1 \<in> set host_widths" "w2 \<in> set host_widths" by (simp_all add: T1 T)
  show ?thesis
  proof (cases s)
    case True
    from v have "- (2 ^ (max w1 w2 - 1)) \<le> v \<and> v < 2 ^ (max w1 w2 - 1)"
    proof
      assume "in_range T1 v"
      then have b: "- (2 ^ (w1 - 1)) \<le> v" "v < 2 ^ (w1 - 1)" by (simp_all add: T1 True in_range_signed)
      have "(2::int) ^ (w1 - 1) \<le> 2 ^ (max w1 w2 - 1)" by (intro power_increasing) auto
      with b show ?thesis by linarith
    next
      assume "in_range T v"
      then have b: "- (2 ^ (w2 - 1)) \<le> v" "v < 2 ^ (w2 - 1)" by (simp_all add: T True in_range_signed)
      have "(2::int) ^ (w2 - 1) \<le> 2 ^ (max w1 w2 - 1)" by (intro power_increasing) auto
      with b show ?thesis by linarith
    qed
    moreover have "(2::int) ^ (max w1 w2 - 1) \<le> 2 ^ (max 32 (max w1 w2) - 1)"
      by (intro power_increasing) auto
    ultimately have "- (2 ^ (max 32 (max w1 w2) - 1)) \<le> v \<and> v < 2 ^ (max 32 (max w1 w2) - 1)"
      by linarith
    then show ?thesis by (simp add: T1 T True common_type_signed [OF w] in_range_signed)
  next
    case False
    from v have b: "0 \<le> v \<and> v < 2 ^ (max w1 w2)"
    proof
      assume "in_range T1 v"
      then have b: "0 \<le> v" "v < 2 ^ w1" by (simp_all add: T1 False in_range_unsigned)
      have "(2::int) ^ w1 \<le> 2 ^ (max w1 w2)" by (intro power_increasing) auto
      with b show ?thesis by linarith
    next
      assume "in_range T v"
      then have b: "0 \<le> v" "v < 2 ^ w2" by (simp_all add: T False in_range_unsigned)
      have "(2::int) ^ w2 \<le> 2 ^ (max w1 w2)" by (intro power_increasing) auto
      with b show ?thesis by linarith
    qed
    show ?thesis
    proof (cases "max w1 w2 < 32")
      case True
      then have "(2::int) ^ (max w1 w2) \<le> 2 ^ 31" by (intro power_increasing) auto
      with b have "- (2 ^ 31) \<le> v \<and> v < 2 ^ 31" by linarith
      with True show ?thesis
        by (simp add: T1 T False common_type_unsigned [OF w] in_range_signed del: max_less_iff_conj)
    next
      case F: False
      with b show ?thesis
        by (simp add: T1 T False common_type_unsigned [OF w] in_range_unsigned del: max_less_iff_conj)
    qed
  qed
qed

lemma shift_roundtrip_exact:
  fixes r x :: int
  assumes range: "- (2 ^ w) < r" "r < 2 ^ w"
    and cong: "take_bit w r = take_bit w (x * 2 ^ s)"
    and rb: "r div 2 ^ s = x"
  shows "r = x * 2 ^ s"
proof (cases "s \<le> w")
  case True
  define d where "d = r mod 2 ^ s"
  have r: "r = x * 2 ^ s + d"
    using rb by (simp add: d_def) (metis mult.commute mult_div_mod_eq)
  have d: "0 \<le> d" "d < 2 ^ s" by (simp_all add: d_def)
  have "take_bit w (r - x * 2 ^ s) = 0"
    using cong by (metis diff_self take_bit_diff take_bit_of_0)
  then have "take_bit w d = 0" by (simp add: r)
  moreover have "d < 2 ^ w"
    using d True by (smt (verit) power_increasing)
  ultimately have "d = 0" using d by (simp add: take_bit_int_eq_self)
  with r show ?thesis by simp
next
  case False
  then have "w \<le> s" by simp
  then have "(2::int) ^ w dvd x * 2 ^ s" by (simp add: le_imp_power_dvd)
  then have "take_bit w (x * 2 ^ s) = 0" by (simp add: take_bit_eq_mod)
  with cong have z: "take_bit w r = 0" by simp
  have "r = 0"
  proof (cases "0 \<le> r")
    case True
    with range z show ?thesis by (simp add: take_bit_int_eq_self)
  next
    case False
    then have "0 \<le> r + 2 ^ w" "r + 2 ^ w < 2 ^ w" using range by simp_all
    then have "take_bit w (r + 2 ^ w) = r + 2 ^ w" by (simp add: take_bit_int_eq_self)
    moreover have "take_bit w (r + 2 ^ w) = take_bit w r"
      by (simp add: take_bit_eq_mod)
    ultimately show ?thesis using z False range by simp
  qed
  with rb show ?thesis by simp
qed

lemma in_range_abs: "0 < width T \<Longrightarrow> in_range T r \<Longrightarrow> - (2 ^ width T) < r \<and> r < 2 ^ width T"
  unfolding in_range_def type_min_def type_max_def digits_def
  by (cases "width T") (auto split: if_splits)

lemma fixed_point_Some:
  "fixed_point T n f e op up = Some d \<Longrightarrow>
     d = \<lparr>storage_type = T, bits_for_integral = n, bits_for_fractional = f,
          scaling_factor_exponent = e, overflow_policy = op, underflow_policy = up\<rparr>
     \<and> unat (n + f) \<le> digits (largest_type T)"
  by (auto simp: fixed_point_def split: if_splits)

lemma unat_Suc_le_63:
  fixes n :: size_t
  assumes "unat n \<le> 63"
  shows "unat (n + 1) = unat n + 1"
  using assms by (simp add: unat_word_ariths)

section \<open>What the aliases \<open>Q\<close> and \<open>UQ\<close> denote\<close>

lemma Q_Some:
  assumes "Q n f e op up = Some d"
  shows "\<exists>w. least_width (unat n + 1) = Some w \<and>
             d = \<lparr>storage_type = Int_type True w, bits_for_integral = n - f,
                  bits_for_fractional = f, scaling_factor_exponent = e,
                  overflow_policy = op, underflow_policy = up\<rparr>"
proof -
  from assms obtain w where w: "least_width (unat (n + 1)) = Some w"
    and fp: "fixed_point (Int_type True w) (n - f) f e op up = Some d"
    by (auto simp: Q_def int_t_least_def split: option.splits)
  from fixed_point_Some [OF fp] have d: "d = \<lparr>storage_type = Int_type True w,
      bits_for_integral = n - f, bits_for_fractional = f, scaling_factor_exponent = e,
      overflow_policy = op, underflow_policy = up\<rparr>" and n63: "unat n \<le> 63"
    by (simp_all add: digits_def largest_type_def intmax_t_def)
  from n63 have "unat (n + 1) = unat n + 1" by (rule unat_Suc_le_63)
  with w d show ?thesis by simp
qed

lemma UQ_Some:
  assumes "UQ n f e op up = Some d"
  shows "\<exists>w. least_width (unat n) = Some w \<and>
             d = \<lparr>storage_type = Int_type False w, bits_for_integral = n - f,
                  bits_for_fractional = f, scaling_factor_exponent = e,
                  overflow_policy = op, underflow_policy = up\<rparr>"
proof -
  from assms obtain w where w: "least_width (unat n) = Some w"
    and fp: "fixed_point (Int_type False w) (n - f) f e op up = Some d"
    by (auto simp: UQ_def uint_t_least_def split: option.splits)
  from fixed_point_Some [OF fp] w show ?thesis by simp
qed

lemma Q_defined: "unat n \<le> 63 \<Longrightarrow> Q n f e op up \<noteq> None"
  by (auto simp: Q_def int_t_least_def fixed_point_def digits_def largest_type_def intmax_t_def
      least_width_None unat_Suc_le_63 split: option.splits)

text \<open>
  Claim C1, as the code has it. An instantiation \<open>Q<n, f, e, op, up>\<close> that compiles is
  a signed fixed-point type with \<open>n - f\<close> integer bits (in \<open>std::size_t\<close> arithmetic)
  and \<open>f\<close> fractional bits, hence \<open>n\<close> significant bits in all, with the exponent \<open>e\<close>
  and the two policies; its storage type is the smallest signed host integer with at
  least \<open>n + 1\<close> bits. \<open>UQ<n, f, e, op, up>\<close> is the same with an unsigned storage type,
  the smallest with at least \<open>n\<close> bits.
\<close>

theorem Q_alias_format:
  "(Q n f e op up = Some d \<longrightarrow>
      is_signed (storage_type d) \<and>
      bits_for_integral d = n - f \<and> bits_for_fractional d = f \<and>
      number_of_significant_bits d = n \<and>
      scaling_factor_exponent d = e \<and> overflow_policy d = op \<and> underflow_policy d = up \<and>
      width (storage_type d) \<in> set host_widths \<and>
      unat n + 1 \<le> width (storage_type d) \<and>
      (\<forall>w \<in> set host_widths. unat n + 1 \<le> w \<longrightarrow> width (storage_type d) \<le> w)) \<and>
   (UQ n f e op up = Some d' \<longrightarrow>
      \<not> is_signed (storage_type d') \<and>
      bits_for_integral d' = n - f \<and> bits_for_fractional d' = f \<and>
      number_of_significant_bits d' = n \<and>
      scaling_factor_exponent d' = e \<and> overflow_policy d' = op \<and> underflow_policy d' = up \<and>
      width (storage_type d') \<in> set host_widths \<and>
      unat n \<le> width (storage_type d') \<and>
      (\<forall>w \<in> set host_widths. unat n \<le> w \<longrightarrow> width (storage_type d') \<le> w))"
proof (rule conjI; rule impI)
  assume "Q n f e op up = Some d"
  from Q_Some [OF this] obtain w where w: "least_width (unat n + 1) = Some w"
    and d: "d = \<lparr>storage_type = Int_type True w, bits_for_integral = n - f,
                  bits_for_fractional = f, scaling_factor_exponent = e,
                  overflow_policy = op, underflow_policy = up\<rparr>"
    by blast
  from least_width_Some [OF w] d
  show "is_signed (storage_type d) \<and>
      bits_for_integral d = n - f \<and> bits_for_fractional d = f \<and>
      number_of_significant_bits d = n \<and>
      scaling_factor_exponent d = e \<and> overflow_policy d = op \<and> underflow_policy d = up \<and>
      width (storage_type d) \<in> set host_widths \<and>
      unat n + 1 \<le> width (storage_type d) \<and>
      (\<forall>w \<in> set host_widths. unat n + 1 \<le> w \<longrightarrow> width (storage_type d) \<le> w)"
    by (simp add: number_of_significant_bits_def)
next
  assume "UQ n f e op up = Some d'"
  from UQ_Some [OF this] obtain w where w: "least_width (unat n) = Some w"
    and d: "d' = \<lparr>storage_type = Int_type False w, bits_for_integral = n - f,
                  bits_for_fractional = f, scaling_factor_exponent = e,
                  overflow_policy = op, underflow_policy = up\<rparr>"
    by blast
  from least_width_Some [OF w] d
  show "\<not> is_signed (storage_type d') \<and>
      bits_for_integral d' = n - f \<and> bits_for_fractional d' = f \<and>
      number_of_significant_bits d' = n \<and>
      scaling_factor_exponent d' = e \<and> overflow_policy d' = op \<and> underflow_policy d' = up \<and>
      width (storage_type d') \<in> set host_widths \<and>
      unat n \<le> width (storage_type d') \<and>
      (\<forall>w \<in> set host_widths. unat n \<le> w \<longrightarrow> width (storage_type d') \<le> w)"
    by (simp add: number_of_significant_bits_def)
qed

lemmas alias_eval =
  Q_def UQ_def int_t_least_def uint_t_least_def least_width_def host_widths_def
  fixed_point_def digits_def largest_type_def intmax_t_def uintmax_t_def

theorem Q_alias_format_witness:
  "Q 30 20 0 Raise Ignore =
     Some \<lparr>storage_type = Int_type True 32, bits_for_integral = 10,
       bits_for_fractional = 20, scaling_factor_exponent = 0, overflow_policy = Raise,
       underflow_policy = Ignore\<rparr> \<and>
   UQ 30 20 0 Raise Ignore =
     Some \<lparr>storage_type = Int_type False 32, bits_for_integral = 10,
       bits_for_fractional = 20, scaling_factor_exponent = 0, overflow_policy = Raise,
       underflow_policy = Ignore\<rparr> \<and>
   number_of_significant_bits \<lparr>storage_type = Int_type True 32, bits_for_integral = 10,
       bits_for_fractional = 20, scaling_factor_exponent = 0, overflow_policy = Raise,
       underflow_policy = Ignore\<rparr> = 30 \<and>
   number_of_significant_bits \<lparr>storage_type = Int_type False 32, bits_for_integral = 10,
       bits_for_fractional = 20, scaling_factor_exponent = 0, overflow_policy = Raise,
       underflow_policy = Ignore\<rparr> = 30"
proof -
  have q: "Q 30 20 0 Raise Ignore =
     Some \<lparr>storage_type = Int_type True 32, bits_for_integral = 10,
       bits_for_fractional = 20, scaling_factor_exponent = 0, overflow_policy = Raise,
       underflow_policy = Ignore\<rparr>"
    by (simp add: alias_eval)
  have u: "UQ 30 20 0 Raise Ignore =
     Some \<lparr>storage_type = Int_type False 32, bits_for_integral = 10,
       bits_for_fractional = 20, scaling_factor_exponent = 0, overflow_policy = Raise,
       underflow_policy = Ignore\<rparr>"
    by (simp add: alias_eval)
  from Q_alias_format [of 30 20 0 Raise Ignore _ _] q u show ?thesis
    by simp
qed

text \<open>
  The claim as the spec words it fails: \<open>Q<12, 4>\<close> has 8 integer bits, not 12, and is
  stored in 16 bits, whereas the smallest signed host integer with at least
  \<open>12 + 4 + 1\<close> bits has 32.
\<close>

theorem Q_alias_counterexample:
  "map_option bits_for_integral (Q 12 4 0 Raise Raise) = Some 8 \<and>
   map_option bits_for_integral (Q 12 4 0 Raise Raise) \<noteq> Some 12 \<and>
   map_option storage_type (Q 12 4 0 Raise Raise) = Some (Int_type True 16) \<and>
   int_t_least (12 + 4 + 1) = Some (Int_type True 32) \<and>
   map_option storage_type (Q 12 4 0 Raise Raise) \<noteq> int_t_least (12 + 4 + 1)"
  by (simp add: alias_eval)

section \<open>Unary negation of unsigned numbers\<close>

text \<open>
  Claim C10. Let \<open>F\<close> be an unsigned format whose significant bits fit its storage
  type, and \<open>x\<close> the stored integer of one of its values. Then \<open>-x\<close> has the stored
  integer \<open>largest_stored_integer - x\<close>, whatever \<open>does_unary_negation_overflow\<close>
  answers, and negating that gives \<open>x\<close> back.
\<close>

theorem unsigned_negation:
  assumes u: "\<not> is_signed (storage_type F)"
    and fits: "unat (number_of_significant_bits F) \<le> digits (storage_type F)"
    and w: "width (storage_type F) \<le> 64"
    and x: "0 \<le> x" "x \<le> largest_stored_integer F"
  shows "operator_negate p F x =
           Some (raise_if (p x) Overflow, largest_stored_integer F - x) \<and>
         operator_negate p F (largest_stored_integer F - x) =
           Some (raise_if (p (largest_stored_integer F - x)) Overflow, x)"
proof -
  let ?L = "largest_stored_integer F"
  let ?T = "storage_type F"
  have L: "?L < 2 ^ width ?T"
  proof -
    have "(2::int) ^ unat (number_of_significant_bits F) \<le> 2 ^ width ?T"
      using fits u by (intro power_increasing) (simp_all add: digits_def)
    then show ?thesis unfolding largest_stored_integer_def by linarith
  qed
  have W: "(2::int) ^ width ?T \<le> 2 ^ 64"
    using w by (intro power_increasing) simp_all
  have neg: "operator_negate p F y = Some (raise_if (p y) Overflow, ?L - y)"
    if y: "0 \<le> y" "y \<le> ?L" for y
  proof -
    from L W y have c1: "cast uintmax_t (?L - y) = ?L - y"
      by (intro cast_id_unsigned) (simp_all add: uintmax_t_def)
    from L y u have c2: "cast ?T (?L - y) = ?L - y"
      by (intro cast_id_unsigned) simp_all
    show ?thesis using u y c1 c2
      by (simp add: operator_negate_def wrap_def raise_if_def Let_def)
  qed
  from x have "0 \<le> ?L - x" "?L - x \<le> ?L" by simp_all
  from neg [OF x] neg [OF this] show ?thesis by simp
qed

theorem unsigned_negation_witness:
  "operator_negate (\<lambda>v. False)
     \<lparr>storage_type = Int_type False 8, bits_for_integral = 4, bits_for_fractional = 4,
      scaling_factor_exponent = 0, overflow_policy = Raise, underflow_policy = Raise\<rparr> 200
     = Some ([], 55) \<and>
   operator_negate (\<lambda>v. False)
     \<lparr>storage_type = Int_type False 8, bits_for_integral = 4, bits_for_fractional = 4,
      scaling_factor_exponent = 0, overflow_policy = Raise, underflow_policy = Raise\<rparr> 55
     = Some ([], 200)"
  using unsigned_negation [of
     "\<lparr>storage_type = Int_type False 8, bits_for_integral = 4, bits_for_fractional = 4,
      scaling_factor_exponent = 0, overflow_policy = Raise, underflow_policy = Raise\<rparr>"
     200 "\<lambda>v. False"]
  by (simp add: number_of_significant_bits_def digits_def largest_stored_integer_def raise_if_def)

section \<open>Construction from a floating-point number\<close>

lemmas machine_eval =
  cast_def promote_def common_type_def shift_left_def shift_right_def in_range_def
  type_min_def type_max_def digits_def builtin_arith_def raise_if_def

lemmas format_eval =
  number_of_significant_bits_def largest_stored_integer_def least_stored_integer_def
  scale_def wrap_def

lemmas construction_eval =
  calc_stored_integer_from_def calc_stored_integer_from_integral_def float_cast_def
  float_truncate_def pow2_def

text \<open>
  Whenever the construction from a floating-point number has a defined result, it has
  raised no event: for a positive argument the converted integer is not negative.
\<close>

lemma calc_stored_integer_from_no_event:
  assumes "calc_stored_integer_from F x = Some (evs, v)"
  shows "evs = []"
proof (cases "x > 0")
  case True
  have "0 \<le> x * pow2 (scaling_factor_exponent F) * of_int (scale F) + 0.5"
    using True by (simp add: pow2_def scale_def)
  then have "0 \<le> \<lfloor>x * pow2 (scaling_factor_exponent F) * of_int (scale F) + 0.5\<rfloor>"
    by simp
  with assms True show ?thesis
    by (auto simp: calc_stored_integer_from_def float_cast_def float_truncate_def raise_if_def
        Let_def split: option.splits if_splits)
next
  case False
  with assms show ?thesis
    by (auto simp: calc_stored_integer_from_def Let_def split: option.splits)
qed

text \<open>
  Claim C4 at a failing input. \<open>Q<6, 4>\<close> is stored in 8 bits and has the bounds \<open>-64\<close>
  and \<open>63\<close>. Constructed from \<open>5.0\<close> it gets the stored integer \<open>80\<close>, from \<open>-5.0\<close> the
  stored integer \<open>-80\<close>; both lie outside the bounds and no event is raised.
\<close>

theorem construction_overflow_unnoticed:
  "Q 6 4 0 Raise Raise =
     Some \<lparr>storage_type = Int_type True 8, bits_for_integral = 2, bits_for_fractional = 4,
       scaling_factor_exponent = 0, overflow_policy = Raise, underflow_policy = Raise\<rparr> \<and>
   calc_stored_integer_from
     \<lparr>storage_type = Int_type True 8, bits_for_integral = 2, bits_for_fractional = 4,
       scaling_factor_exponent = 0, overflow_policy = Raise, underflow_policy = Raise\<rparr> 5
     = Some ([], 80) \<and>
   largest_stored_integer
     \<lparr>storage_type = Int_type True 8, bits_for_integral = 2, bits_for_fractional = 4,
       scaling_factor_exponent = 0, overflow_policy = Raise, underflow_policy = Raise\<rparr> = 63 \<and>
   calc_stored_integer_from
     \<lparr>storage_type = Int_type True 8, bits_for_integral = 2, bits_for_fractional = 4,
       scaling_factor_exponent = 0, overflow_policy = Raise, underflow_policy = Raise\<rparr> (- 5)
     = Some ([], - 80) \<and>
   least_stored_integer
     \<lparr>storage_type = Int_type True 8, bits_for_integral = 2, bits_for_fractional = 4,
       scaling_factor_exponent = 0, overflow_policy = Raise, underflow_policy = Raise\<rparr> = - 64"
  by (simp add: alias_eval machine_eval format_eval construction_eval)

text \<open>
  When the conversion is defined, the stored integer is the scaled value rounded to the
  nearest integer, a tie going away from zero.
\<close>

lemma calc_stored_integer_from_rounds:
  assumes "calc_stored_integer_from F x = Some (evs, v)"
  shows "\<bar>of_int v - x * pow2 (scaling_factor_exponent F) * of_int (scale F)\<bar> \<le> 1 / 2"
    and "\<bar>of_int v - x * pow2 (scaling_factor_exponent F) * of_int (scale F)\<bar> = 1 / 2 \<Longrightarrow>
         \<bar>x * pow2 (scaling_factor_exponent F) * of_int (scale F)\<bar> < \<bar>of_int v\<bar>"
proof -
  define y where "y = x * pow2 (scaling_factor_exponent F) * of_int (scale F)"
  have sc: "0 < pow2 (scaling_factor_exponent F) * of_int (scale F)"
    by (simp add: pow2_def scale_def)
  have v: "v = (if x > 0 then \<lfloor>y + 1 / 2\<rfloor> else \<lceil>y - 1 / 2\<rceil>)"
    using assms
    by (auto simp: calc_stored_integer_from_def float_cast_def float_truncate_def Let_def y_def
        split: option.splits if_splits)
  define c where "c = pow2 (scaling_factor_exponent F) * of_int (scale F)"
  have yc: "y = x * c" by (simp add: y_def c_def)
  have c: "0 < c" using sc by (simp add: c_def)
  have sg: "x > 0 \<Longrightarrow> 0 < y" "\<not> x > 0 \<Longrightarrow> y \<le> 0"
    using c by (simp_all add: yc zero_less_mult_iff mult_le_0_iff)
  have b: "\<bar>of_int v - y\<bar> \<le> 1 / 2"
  proof (cases "x > 0")
    case True
    then have "v = \<lfloor>y + 1 / 2\<rfloor>" by (simp add: v)
    then show ?thesis by linarith
  next
    case False
    then have "v = \<lceil>y - 1 / 2\<rceil>" by (simp add: v)
    then show ?thesis by linarith
  qed
  have h: "\<bar>y\<bar> < \<bar>of_int v\<bar>" if "\<bar>of_int v - y\<bar> = 1 / 2"
  proof (cases "x > 0")
    case True
    then have "v = \<lfloor>y + 1 / 2\<rfloor>" by (simp add: v)
    then have "y - 1 / 2 < of_int v" by linarith
    with that have "of_int v = y + 1 / 2" by linarith
    with sg(1) [OF True] show ?thesis by simp
  next
    case False
    then have "v = \<lceil>y - 1 / 2\<rceil>" by (simp add: v)
    then have "of_int v < y + 1 / 2" by linarith
    with that have "of_int v = y - 1 / 2" by linarith
    with sg(2) [OF False] show ?thesis by simp
  qed
  show "\<bar>of_int v - x * pow2 (scaling_factor_exponent F) * of_int (scale F)\<bar> \<le> 1 / 2"
    using b by (simp add: y_def)
  show "\<bar>x * pow2 (scaling_factor_exponent F) * of_int (scale F)\<bar> < \<bar>of_int v\<bar>"
    if "\<bar>of_int v - x * pow2 (scaling_factor_exponent F) * of_int (scale F)\<bar> = 1 / 2"
    using h that by (simp add: y_def)
qed

section \<open>The scenario of the sum\<close>

text \<open>
  Claim C6, as the code has it. The format with 10 integer and 20 fractional bits is
  \<open>Q<30, 20>\<close>, stored in 32 bits. There \<open>1.5\<close> and \<open>0.25\<close> are constructed without an
  event, their sum has the stored integer \<open>1835008\<close>, again without an event, and its
  value is \<open>1.75\<close>.
\<close>

theorem Q_30_20_sum:
  "Q 30 20 0 Raise Raise =
     Some \<lparr>storage_type = Int_type True 32, bits_for_integral = 10, bits_for_fractional = 20,
       scaling_factor_exponent = 0, overflow_policy = Raise, underflow_policy = Raise\<rparr> \<and>
   calc_stored_integer_from
     \<lparr>storage_type = Int_type True 32, bits_for_integral = 10, bits_for_fractional = 20,
       scaling_factor_exponent = 0, overflow_policy = Raise, underflow_policy = Raise\<rparr> 1.5
     = Some ([], 1572864) \<and>
   calc_stored_integer_from
     \<lparr>storage_type = Int_type True 32, bits_for_integral = 10, bits_for_fractional = 20,
       scaling_factor_exponent = 0, overflow_policy = Raise, underflow_policy = Raise\<rparr> 0.25
     = Some ([], 262144) \<and>
   operator_plus
     \<lparr>storage_type = Int_type True 32, bits_for_integral = 10, bits_for_fractional = 20,
       scaling_factor_exponent = 0, overflow_policy = Raise, underflow_policy = Raise\<rparr>
     1572864 262144 = Some ([], 1835008) \<and>
   to_floating_point
     (sum_traits \<lparr>storage_type = Int_type True 32, bits_for_integral = 10,
       bits_for_fractional = 20, scaling_factor_exponent = 0, overflow_policy = Raise,
       underflow_policy = Raise\<rparr>) 1835008 = 1.75"
  apply (intro conjI)
      apply (simp add: alias_eval)
     apply (simp add: machine_eval format_eval construction_eval)
    apply (simp add: machine_eval format_eval construction_eval)
   apply (simp add: operator_plus_def sum_traits_def does_addition_overflow_def alias_eval
      machine_eval format_eval)
  apply (simp add: to_floating_point_def scaling_factor_def sum_traits_def alias_eval pow2_def
      scale_def)
  done

text \<open>
  The claim as the spec words it fails: \<open>Q<10, 20>\<close> is stored in 16 bits, which cannot
  hold \<open>1835008\<close>, and the conversion of \<open>1.5 * 2 ^ 20\<close> to its storage type is undefined.
\<close>

theorem Q_10_20_counterexample:
  "Q 10 20 0 Raise Raise =
     Some \<lparr>storage_type = Int_type True 16, bits_for_integral = 10 - 20,
       bits_for_fractional = 20, scaling_factor_exponent = 0, overflow_policy = Raise,
       underflow_policy = Raise\<rparr> \<and>
   calc_stored_integer_from
     \<lparr>storage_type = Int_type True 16, bits_for_integral = 10 - 20,
       bits_for_fractional = 20, scaling_factor_exponent = 0, overflow_policy = Raise,
       underflow_policy = Raise\<rparr> 1.5 = None \<and>
   \<not> in_range (Int_type True 16) 1835008"
  apply (intro conjI)
    apply (simp add: alias_eval)
   apply (simp add: machine_eval format_eval construction_eval)
  apply (simp add: machine_eval)
  done

section \<open>Normalisation between formats\<close>

text \<open>
  The shifts of a normalisation are defined exactly when the distance is below the width of
  the promoted operand.
\<close>

lemma normalize_left_defined:
  "normalize_left F1 F x \<noteq> None \<longleftrightarrow> shifts_left F1 F < width (promote (storage_type F))"
  by (simp add: normalize_left_def shift_left_def shift_right_def Let_def)

lemma normalize_right_defined:
  "normalize_right F1 F x \<noteq> None \<longleftrightarrow> shifts_right F1 F < width (promote (storage_type F1))"
  by (simp add: normalize_right_def shift_right_def Let_def)

lemma normalize_left_result:
  assumes host: "width (storage_type F) \<in> set host_widths"
    and res: "normalize_left F1 F x = Some (evs, r)"
  shows "in_range (storage_type F) r"
    and "take_bit (width (storage_type F)) r =
         take_bit (width (storage_type F)) (x * 2 ^ shifts_left F1 F)"
    and "evs = raise_if (cast (common_type (storage_type F1) (storage_type F)) x \<noteq>
           cast (common_type (storage_type F1) (storage_type F)) (r div 2 ^ shifts_left F1 F))
           Overflow"
proof -
  let ?T = "storage_type F"
  let ?s = "shifts_left F1 F"
  from host have pos: "0 < width ?T" by (rule host_width_pos)
  from host have le: "width ?T \<le> width (promote ?T)" and ppos: "0 < width (promote ?T)"
    by (auto simp: promote_def host_widths_def)
  from res have s: "?s < width (promote ?T)"
    and r: "r = cast ?T (cast (promote ?T) (cast ?T x * 2 ^ ?s))"
    and e: "evs = raise_if (cast (common_type (storage_type F1) ?T) x \<noteq>
           cast (common_type (storage_type F1) ?T) (r div 2 ^ ?s)) Overflow"
    by (auto simp: normalize_left_def shift_left_def shift_right_def Let_def split: if_splits)
  show "in_range ?T r" unfolding r using pos by (rule cast_in_range)
  have "take_bit (width ?T) r = take_bit (width ?T) (cast ?T x * 2 ^ ?s)"
    unfolding r using pos le ppos by (simp add: cast_take_bit)
  also have "\<dots> = take_bit (width ?T) (x * 2 ^ ?s)"
    using pos by (rule cast_mult_take_bit)
  finally show "take_bit (width ?T) r = take_bit (width ?T) (x * 2 ^ ?s)" .
  show "evs = raise_if (cast (common_type (storage_type F1) ?T) x \<noteq>
           cast (common_type (storage_type F1) ?T) (r div 2 ^ ?s)) Overflow"
    by (rule e)
qed

text \<open>
  Between storage types of the same signedness the left shift raises the overflow event
  exactly when the stored result is not the shifted integer.
\<close>

lemma normalize_left_detects_overflow:
  assumes same: "is_signed (storage_type F1) = is_signed (storage_type F)"
    and host: "width (storage_type F1) \<in> set host_widths" "width (storage_type F) \<in> set host_widths"
    and x: "in_range (storage_type F1) x"
    and res: "normalize_left F1 F x = Some (evs, r)"
  shows "evs = raise_if (r \<noteq> x * 2 ^ shifts_left F1 F) Overflow"
proof -
  let ?T = "storage_type F"
  let ?C = "common_type (storage_type F1) ?T"
  let ?s = "shifts_left F1 F"
  note nl = normalize_left_result [OF host(2) res]
  from nl(1) have "in_range ?T (r div 2 ^ ?s)" by (rule in_range_div)
  with same host have "in_range ?C (r div 2 ^ ?s)" by (intro in_range_common) simp_all
  then have c1: "cast ?C (r div 2 ^ ?s) = r div 2 ^ ?s" by (rule cast_id)
  from same host x have "in_range ?C x" by (intro in_range_common) simp_all
  then have c2: "cast ?C x = x" by (rule cast_id)
  have "(x \<noteq> r div 2 ^ ?s) \<longleftrightarrow> (r \<noteq> x * 2 ^ ?s)"
  proof
    assume "x \<noteq> r div 2 ^ ?s"
    then show "r \<noteq> x * 2 ^ ?s" by auto
  next
    assume ne: "r \<noteq> x * 2 ^ ?s"
    show "x \<noteq> r div 2 ^ ?s"
    proof
      assume "x = r div 2 ^ ?s"
      then have "r div 2 ^ ?s = x" by simp
      from shift_roundtrip_exact [OF _ _ nl(2) this] in_range_abs [OF host_width_pos [OF host(2)] nl(1)]
      have "r = x * 2 ^ ?s" by simp
      with ne show False by simp
    qed
  qed
  with nl(3) c1 c2 show ?thesis by simp
qed

text \<open>
  The right shift raises the underflow event exactly when a stored integer other than
  zero becomes zero.
\<close>

lemma normalize_right_underflow:
  assumes "normalize_right F1 F x = Some (evs, r)"
  shows "evs = raise_if (x \<noteq> 0 \<and> r = 0) Underflow"
    and "r = cast (storage_type F) (x div 2 ^ shifts_right F1 F)"
  using assms
  by (auto simp: normalize_right_def shift_right_def Let_def split: option.splits if_splits)

text \<open>
  Claim C3 at a failing input. The number \<open>-1.0\<close> of the signed format with 16
  fractional bits in 32 bits, converted to the unsigned format with 16 fractional bits
  in 32 bits, is shifted by 0 bits and becomes \<open>4294901760\<close>, that is \<open>65535.0\<close>; the
  comparison that should notice it is made after the conversion of both sides to
  \<open>unsigned\<close>, and no event is raised. Likewise the stored integer \<open>4294967295\<close> of that
  unsigned format, converted to the signed format with 17 fractional bits, is shifted
  by 1 bit and becomes \<open>-2\<close> without an event.
\<close>

theorem normalize_sign_change_unnoticed:
  "normalize_fixed
     \<lparr>storage_type = Int_type True 32, bits_for_integral = 15, bits_for_fractional = 16,
       scaling_factor_exponent = 0, overflow_policy = Raise, underflow_policy = Raise\<rparr>
     \<lparr>storage_type = Int_type False 32, bits_for_integral = 16, bits_for_fractional = 16,
       scaling_factor_exponent = 0, overflow_policy = Raise, underflow_policy = Raise\<rparr>
     (- 65536) = Some ([], 4294901760) \<and>
   shifts_left
     \<lparr>storage_type = Int_type True 32, bits_for_integral = 15, bits_for_fractional = 16,
       scaling_factor_exponent = 0, overflow_policy = Raise, underflow_policy = Raise\<rparr>
     \<lparr>storage_type = Int_type False 32, bits_for_integral = 16, bits_for_fractional = 16,
       scaling_factor_exponent = 0, overflow_policy = Raise, underflow_policy = Raise\<rparr> = 0 \<and>
   normalize_fixed
     \<lparr>storage_type = Int_type False 32, bits_for_integral = 16, bits_for_fractional = 16,
       scaling_factor_exponent = 0, overflow_policy = Raise, underflow_policy = Raise\<rparr>
     \<lparr>storage_type = Int_type True 32, bits_for_integral = 14, bits_for_fractional = 17,
       scaling_factor_exponent = 0, overflow_policy = Raise, underflow_policy = Raise\<rparr>
     4294967295 = Some ([], - 2) \<and>
   shifts_left
     \<lparr>storage_type = Int_type False 32, bits_for_integral = 16, bits_for_fractional = 16,
       scaling_factor_exponent = 0, overflow_policy = Raise, underflow_policy = Raise\<rparr>
     \<lparr>storage_type = Int_type True 32, bits_for_integral = 14, bits_for_fractional = 17,
       scaling_factor_exponent = 0, overflow_policy = Raise, underflow_policy = Raise\<rparr> = 1"
  by (simp add: normalize_fixed_def normalize_left_def shifts_left_def to_int_def machine_eval
      mask_eq_exp_minus_1)

section \<open>The hyperbolic normalisation constant\<close>

lemma repeated_iteration_less_Suc: "repeated_iteration k < repeated_iteration (Suc k)"
  by simp

lemma repeated_iteration_strict_mono: "strict_mono repeated_iteration"
  by (rule strict_mono_Suc_iff [THEN iffD2]) simp

lemma repeated_iteration_ge_4: "4 \<le> repeated_iteration k"
  by (induction k) simp_all

lemma single_factors_Suc:
  "1 \<le> m \<Longrightarrow> single_factors factor (Suc m) = single_factors factor m * factor m"
  by (simp add: single_factors_def prod.atLeastLessThan_Suc)

lemma repeated_factors_Suc:
  assumes "1 \<le> m"
  shows "repeated_factors factor (Suc m) =
           (if m \<in> range repeated_iteration then repeated_factors factor m * factor m
            else repeated_factors factor m)"
proof (cases "m \<in> range repeated_iteration")
  case True
  have "{i \<in> {1..<Suc m}. i \<in> range repeated_iteration} =
        insert m {i \<in> {1..<m}. i \<in> range repeated_iteration}"
    using True assms by auto
  moreover have "m \<notin> {i \<in> {1..<m}. i \<in> range repeated_iteration}" by simp
  moreover have "finite {i \<in> {1..<m}. i \<in> range repeated_iteration}" by simp
  ultimately show ?thesis using True
    by (simp add: repeated_factors_def mult.commute)
next
  case False
  have "{i \<in> {1..<Suc m}. i \<in> range repeated_iteration} =
        {i \<in> {1..<m}. i \<in> range repeated_iteration}"
    using False by (auto simp: less_Suc_eq)
  then show ?thesis using False by (simp add: repeated_factors_def)
qed

text \<open>The state of the loop after the indices below \<open>m\<close>, none of which is the last one.\<close>

lemma hyperbolic_scale_prefix:
  assumes "m \<le> n - 1"
  shows "\<exists>k. foldl (hyperbolic_scale_step factor n) (1, 4) [1..<m] =
           (single_factors factor m * repeated_factors factor m, repeated_iteration k)
         \<and> m \<le> repeated_iteration k \<and> (\<forall>j<k. repeated_iteration j < m)"
  using assms
proof (induction m)
  case 0
  show ?case by (rule exI [of _ 0]) (simp add: single_factors_def repeated_factors_def)
next
  case (Suc m)
  show ?case
  proof (cases "m = 0")
    case True
    show ?thesis unfolding True
      by (rule exI [of _ 0]) (simp add: single_factors_def repeated_factors_def)
  next
    case False
    then have m1: "1 \<le> m" by simp
    from Suc.prems have m: "m \<le> n - 1" "m \<noteq> n - 1" by simp_all
    from Suc.IH [OF m(1)] obtain k where
      st: "foldl (hyperbolic_scale_step factor n) (1, 4) [1..<m] =
           (single_factors factor m * repeated_factors factor m, repeated_iteration k)"
      and le: "m \<le> repeated_iteration k" and below: "\<forall>j<k. repeated_iteration j < m"
      by blast
    from False have upt: "[1..<Suc m] = [1..<m] @ [m]" by simp
    have mem: "m \<in> range repeated_iteration \<longleftrightarrow> m = repeated_iteration k"
    proof
      assume "m \<in> range repeated_iteration"
      then obtain j where j: "m = repeated_iteration j" by blast
      have "\<not> j < k" using below j by auto
      moreover have "\<not> k < j"
        using le j strict_monoD [OF repeated_iteration_strict_mono, of k j] by auto
      ultimately show "m = repeated_iteration k" using j by simp
    qed simp
    show ?thesis
    proof (cases "m = repeated_iteration k")
      case True
      have "foldl (hyperbolic_scale_step factor n) (1, 4) [1..<Suc m] =
            (single_factors factor (Suc m) * repeated_factors factor (Suc m),
             repeated_iteration (Suc k))"
        unfolding upt foldl_append st single_factors_Suc [OF m1] repeated_factors_Suc [OF m1]
        using True m(2) mem
        by (simp add: hyperbolic_scale_step_def Let_def mult_ac)
      moreover have "Suc m \<le> repeated_iteration (Suc k)" using True by simp
      moreover have "\<forall>j<Suc k. repeated_iteration j < Suc m"
        using below True by (auto simp: less_Suc_eq)
      ultimately show ?thesis by blast
    next
      case F: False
      have "foldl (hyperbolic_scale_step factor n) (1, 4) [1..<Suc m] =
            (single_factors factor (Suc m) * repeated_factors factor (Suc m),
             repeated_iteration k)"
        unfolding upt foldl_append st single_factors_Suc [OF m1] repeated_factors_Suc [OF m1]
        using F mem
        by (simp add: hyperbolic_scale_step_def Let_def mult_ac)
      moreover have "Suc m \<le> repeated_iteration k" using le F by simp
      moreover have "\<forall>j<k. repeated_iteration j < Suc m"
        using below by (auto simp: less_Suc_eq)
      ultimately show ?thesis by blast
    qed
  qed
qed

lemma hyperbolic_scale_loop_schedule:
  "hyperbolic_scale_loop factor n =
     (\<Prod>i = 1..<n. factor i) *
     (\<Prod>i \<in> {i \<in> {1..<n}. i \<in> range repeated_iteration \<and> i \<noteq> n - 1}. factor i)"
proof (cases "n \<le> 1")
  case True
  then have "[1..<n] = []" "{1..<n} = {}" by simp_all
  then show ?thesis by (simp add: hyperbolic_scale_loop_def)
next
  case False
  then obtain m where n: "n = Suc m" and m1: "1 \<le> m" by (cases n) auto
  have upt: "[1..<n] = [1..<m] @ [m]" using m1 by (simp add: n)
  from hyperbolic_scale_prefix [of m n factor] obtain k where
    st: "foldl (hyperbolic_scale_step factor n) (1, 4) [1..<m] =
           (single_factors factor m * repeated_factors factor m, repeated_iteration k)"
    by (auto simp: n)
  have set: "{i \<in> {1..<n}. i \<in> range repeated_iteration \<and> i \<noteq> n - 1} =
             {i \<in> {1..<m}. i \<in> range repeated_iteration}"
    by (auto simp: n)
  have "hyperbolic_scale_loop factor n = single_factors factor (Suc m) * repeated_factors factor m"
    unfolding hyperbolic_scale_loop_def upt foldl_append st single_factors_Suc [OF m1]
    by (simp add: hyperbolic_scale_step_def Let_def n mult_ac)
  then show ?thesis
    unfolding set by (simp add: single_factors_def repeated_factors_def n)
qed

text \<open>
  Claim C9, as the code has it. The constant for \<open>n\<close> iterations is the product of the
  factors of the indices 1 to \<open>n - 1\<close>, times the factors, once more, of those of the
  repeated iterations 4, 13, 40, ... among these indices that are not the last index
  \<open>n - 1\<close>.
\<close>

theorem hyperbolic_scale_schedule:
  "hyperbolic_scale_with_repeated_iterations n =
     (\<Prod>i = 1..<n. hyperbolic_factor i) *
     (\<Prod>i \<in> {i \<in> {1..<n}. i \<in> range repeated_iteration \<and> i \<noteq> n - 1}. hyperbolic_factor i)"
  unfolding hyperbolic_scale_with_repeated_iterations_def
  by (rule hyperbolic_scale_loop_schedule)

lemma hyperbolic_factor_pos:
  assumes "1 \<le> i"
  shows "0 < hyperbolic_factor i"
proof -
  from assms have "(1::real) < 2 ^ (2 * i)" by (simp add: one_less_power)
  then have "1 / 2 ^ (2 * i) < (1::real)" by simp
  with assms show ?thesis by (simp add: hyperbolic_factor_def pow2_def nat_mult_distrib)
qed

text \<open>
  The claim as the spec words it, with the factor of every repeated iteration applied
  twice, fails for \<open>n = 5\<close>: the index 4 is the last one, and its factor, which is not
  1, is applied once.
\<close>

theorem hyperbolic_scale_counterexample:
  "hyperbolic_scale_with_repeated_iterations 5 \<noteq>
     (\<Prod>i = 1..<5. hyperbolic_factor i) *
     (\<Prod>i \<in> {i \<in> {1..<5}. i \<in> range repeated_iteration}. hyperbolic_factor i)"
proof -
  have r: "{i \<in> {1..<5}. i \<in> range repeated_iteration} = {4}"
  proof -
    have "4 \<in> range repeated_iteration" by (rule range_eqI [of _ _ 0]) simp
    moreover have "i = 4" if "i < 5" "i \<in> range repeated_iteration" for i
    proof -
      from that(2) obtain k where "i = repeated_iteration k" by blast
      with that(1) repeated_iteration_ge_4 [of k] show ?thesis by simp
    qed
    ultimately show ?thesis by auto
  qed
  have e: "{i \<in> {1..<5}. i \<in> range repeated_iteration \<and> i \<noteq> 5 - 1} = {}"
    using r by auto
  have c: "hyperbolic_scale_with_repeated_iterations 5 = (\<Prod>i = 1..<5. hyperbolic_factor i)"
    unfolding hyperbolic_scale_with_repeated_iterations_def hyperbolic_scale_loop_schedule e by simp
  define P where "P = (\<Prod>i = 1..<5. hyperbolic_factor i)"
  have p: "0 < P"
    unfolding P_def by (rule prod_pos) (simp add: hyperbolic_factor_pos)
  have f: "hyperbolic_factor 4 \<noteq> 1"
    by (simp add: hyperbolic_factor_def pow2_def)
  from p f have "P \<noteq> P * hyperbolic_factor 4" by simp
  then show ?thesis unfolding c r P_def by simp
qed

section \<open>The quotient\<close>

lemma int_t_least_None: "int_t_least b = None \<longleftrightarrow> 64 < b"
  by (simp add: int_t_least_def least_width_None)

lemma uint_t_least_None: "uint_t_least b = None \<longleftrightarrow> 64 < b"
  by (simp add: uint_t_least_def least_width_None)



text \<open>The host integer that holds a quotient of \<open>n\<close> bits, if there is one.\<close>

lemma quotient_is_closed_iff:
  "quotient_is_closed A B \<longleftrightarrow>
     (if is_signed (core_T A) then int_t_least (unat (core_n A + core_n B) + 1)
      else uint_t_least (unat (core_n A + core_n B))) = None"
  by (auto simp: quotient_is_closed_def quotient_is_signed_def int_t_least_None
      uint_t_least_None digits_def intmax_t_def uintmax_t_def Let_def)

lemma quotient_of_closed:
  "quotient_is_closed A B \<Longrightarrow>
     quotient_of A B = Some \<lparr>quotient_word_type = core_T A, quotient_fixed_point = A\<rparr>"
  by (simp add: quotient_of_def)

lemma quotient_of_expandable:
  assumes "\<not> quotient_is_closed A B"
  shows "\<exists>W. (if is_signed (core_T A) then int_t_least (unat (core_n A + core_n B) + 1)
              else uint_t_least (unat (core_n A + core_n B))) = Some W \<and>
             quotient_of A B =
               Some \<lparr>quotient_word_type = W,
                     quotient_fixed_point =
                       \<lparr>core_T = W, core_n = core_n A + core_n B,
                        core_f = core_f A + (core_n B - core_f B),
                        core_op = core_op A, core_up = core_up A\<rparr>\<rparr>"
proof (cases "is_signed (core_T A)")
  case True
  with assms have "unat (core_n A + core_n B) \<le> 63"
    by (simp add: quotient_is_closed_def quotient_is_signed_def digits_def intmax_t_def)
  then have u: "unat (core_n A + core_n B + 1) = unat (core_n A + core_n B) + 1"
    by (rule unat_Suc_le_63)
  from assms True obtain W where
    "int_t_least (unat (core_n A + core_n B) + 1) = Some W"
    by (auto simp: quotient_is_closed_iff)
  with assms True u show ?thesis
    by (simp add: quotient_of_def quotient_is_signed_def)
next
  case False
  from assms False obtain W where
    "uint_t_least (unat (core_n A + core_n B)) = Some W"
    by (auto simp: quotient_is_closed_iff)
  with assms False show ?thesis
    by (simp add: quotient_of_def quotient_is_signed_def)
qed

lemma div_of_format:
  assumes "div_of A B = Some t"
  shows "(is_expandable t \<longleftrightarrow>
            (if is_signed (storage_type A)
             then int_t_least (unat (number_of_significant_bits A + number_of_significant_bits B) + 1)
             else uint_t_least (unat (number_of_significant_bits A + number_of_significant_bits B)))
            \<noteq> None)"
    and "is_expandable t \<Longrightarrow>
           number_of_significant_bits (promoted_type t) =
             number_of_significant_bits A + number_of_significant_bits B \<and>
           bits_for_fractional (promoted_type t) =
             bits_for_fractional A + (number_of_significant_bits B - bits_for_fractional B) \<and>
           scaling_factor_exponent (promoted_type t) =
             scaling_factor_exponent A - scaling_factor_exponent B \<and>
           overflow_policy (promoted_type t) = overflow_policy A \<and>
           underflow_policy (promoted_type t) = underflow_policy A \<and>
           Some (storage_type (promoted_type t)) =
             (if is_signed (storage_type A)
              then int_t_least (unat (number_of_significant_bits A + number_of_significant_bits B) + 1)
              else uint_t_least (unat (number_of_significant_bits A + number_of_significant_bits B))) \<and>
           promoted_storage_type t = storage_type (promoted_type t)"
    and "\<not> is_expandable t \<Longrightarrow> promoted_type t = A \<and> promoted_storage_type t = storage_type A"
proof -
  let ?A = "to_core A" and ?B = "to_core B"
  have c: "core_T ?A = storage_type A" "core_n ?A = number_of_significant_bits A"
    "core_n ?B = number_of_significant_bits B" "core_f ?A = bits_for_fractional A"
    "core_f ?B = bits_for_fractional B" "core_op ?A = overflow_policy A"
    "core_up ?A = underflow_policy A"
    by (simp_all add: to_core_def)
  from assms have e: "is_expandable t = (\<not> quotient_is_closed ?A ?B)"
    by (auto simp: div_of_def split: option.splits)
  show "(is_expandable t \<longleftrightarrow>
            (if is_signed (storage_type A)
             then int_t_least (unat (number_of_significant_bits A + number_of_significant_bits B) + 1)
             else uint_t_least (unat (number_of_significant_bits A + number_of_significant_bits B)))
            \<noteq> None)"
    unfolding e quotient_is_closed_iff c by simp
  show "number_of_significant_bits (promoted_type t) =
             number_of_significant_bits A + number_of_significant_bits B \<and>
           bits_for_fractional (promoted_type t) =
             bits_for_fractional A + (number_of_significant_bits B - bits_for_fractional B) \<and>
           scaling_factor_exponent (promoted_type t) =
             scaling_factor_exponent A - scaling_factor_exponent B \<and>
           overflow_policy (promoted_type t) = overflow_policy A \<and>
           underflow_policy (promoted_type t) = underflow_policy A \<and>
           Some (storage_type (promoted_type t)) =
             (if is_signed (storage_type A)
              then int_t_least (unat (number_of_significant_bits A + number_of_significant_bits B) + 1)
              else uint_t_least (unat (number_of_significant_bits A + number_of_significant_bits B))) \<and>
           promoted_storage_type t = storage_type (promoted_type t)"
    if "is_expandable t"
  proof -
    from that e have n: "\<not> quotient_is_closed ?A ?B" by simp
    from quotient_of_expandable [OF n] obtain W where
      W: "(if is_signed (core_T ?A) then int_t_least (unat (core_n ?A + core_n ?B) + 1)
              else uint_t_least (unat (core_n ?A + core_n ?B))) = Some W"
      and q: "quotient_of ?A ?B =
               Some \<lparr>quotient_word_type = W,
                     quotient_fixed_point =
                       \<lparr>core_T = W, core_n = core_n ?A + core_n ?B,
                        core_f = core_f ?A + (core_n ?B - core_f ?B),
                        core_op = core_op ?A, core_up = core_up ?A\<rparr>\<rparr>"
      by blast
    from assms n q have t: "t = \<lparr>promoted_type =
         \<lparr>storage_type = W,
          bits_for_integral = (core_n ?A + core_n ?B) - (core_f ?A + (core_n ?B - core_f ?B)),
          bits_for_fractional = core_f ?A + (core_n ?B - core_f ?B),
          scaling_factor_exponent = scaling_factor_exponent A - scaling_factor_exponent B,
          overflow_policy = core_op ?A, underflow_policy = core_up ?A\<rparr>,
        promoted_storage_type = W, is_expandable = True\<rparr>"
      by (simp add: div_of_def)
    show ?thesis using W unfolding t c
      by (simp add: number_of_significant_bits_def)
  qed
  show "promoted_type t = A \<and> promoted_storage_type t = storage_type A"
    if "\<not> is_expandable t"
  proof -
    from that e have n: "quotient_is_closed ?A ?B" by simp
    from assms n quotient_of_closed [OF n] show ?thesis
      by (auto simp: div_of_def c)
  qed
qed










text \<open>Powers of two with an integer exponent.\<close>

lemma pow2_powi: "pow2 e = 2 powi e"
  by (simp add: pow2_def power_int_def field_simps)

lemma pow2_pos: "0 < pow2 e"
  by (simp add: pow2_def)

lemma pow2_add: "pow2 (a + b) = pow2 a * pow2 b"
  by (simp add: pow2_powi power_int_add)

lemma pow2_minus: "pow2 (- a) = 1 / pow2 a"
  by (simp add: pow2_powi power_int_minus field_simps)

lemma pow2_nat: "pow2 (int n) = 2 ^ n"
  by (simp add: pow2_def)

lemma cpp_div_exact:
  assumes "y \<noteq> 0" "y dvd a"
  shows "(of_int (cpp_div a y) :: real) = of_int a / of_int y"
proof -
  from assms(2) obtain k where a: "a = y * k" by (auto simp: dvd_def)
  have "\<bar>y * k\<bar> div \<bar>y\<bar> = \<bar>k\<bar>" using assms(1) by (simp add: abs_mult)
  then have "cpp_div a y = sgn (y * k) * sgn y * \<bar>k\<bar>" by (simp add: cpp_div_def a)
  also have "\<dots> = (sgn y * sgn y) * (sgn k * \<bar>k\<bar>)"
    by (simp add: sgn_mult mult_ac)
  also have "sgn y * sgn y = 1" using assms(1) by (simp add: sgn_if)
  also have "sgn k * \<bar>k\<bar> = k" by (rule mult_sgn_abs)
  finally show ?thesis using assms(1) by (simp add: a)
qed

text \<open>
  When the division of the shifted numerator is exact, the stored quotient, read in the
  result type, is the quotient of the two numbers.
\<close>

lemma quotient_represents_ratio:
  assumes t: "div_of A B = Some t" and ex: "is_expandable t"
    and nB: "unat (bits_for_integral B) + unat (bits_for_fractional B) < 2 ^ 64"
    and fR: "unat (bits_for_fractional A) + unat (bits_for_integral B) < 2 ^ 64"
    and y: "y \<noteq> 0" "y dvd x * 2 ^ unat (number_of_significant_bits B)"
  shows "to_floating_point (promoted_type t)
           (cpp_div (x * 2 ^ unat (number_of_significant_bits B)) y) =
         to_floating_point A x / to_floating_point B y"
proof -
  let ?R = "promoted_type t"
  define fa where "fa = unat (bits_for_fractional A)"
  define fb where "fb = unat (bits_for_fractional B)"
  define nb where "nb = unat (bits_for_integral B)"
  from div_of_format(2) [OF t ex]
  have f: "bits_for_fractional ?R =
             bits_for_fractional A + (number_of_significant_bits B - bits_for_fractional B)"
    and e: "scaling_factor_exponent ?R = scaling_factor_exponent A - scaling_factor_exponent B"
    by simp_all
  have s: "unat (number_of_significant_bits B) = nb + fb"
    using nB by (simp add: number_of_significant_bits_def unat_word_ariths nb_def fb_def)
  have "bits_for_fractional ?R = bits_for_fractional A + bits_for_integral B"
    by (simp add: f number_of_significant_bits_def)
  then have fr: "unat (bits_for_fractional ?R) = fa + nb"
    using fR by (simp add: unat_word_ariths fa_def nb_def)
  have q: "(of_int (cpp_div (x * 2 ^ (nb + fb)) y) :: real) = of_int (x * 2 ^ (nb + fb)) / of_int y"
    using y unfolding s by (rule cpp_div_exact)
  have yr: "(of_int y :: real) \<noteq> 0" using y(1) by simp
  have pa: "pow2 (scaling_factor_exponent A) \<noteq> 0" and pb: "pow2 (scaling_factor_exponent B) \<noteq> 0"
    using pow2_pos [of "scaling_factor_exponent A"] pow2_pos [of "scaling_factor_exponent B"]
    by simp_all
  show ?thesis
    unfolding to_floating_point_def scaling_factor_def scale_def s fr e q
      fa_def [symmetric] fb_def [symmetric]
    using yr pa pb
    by (simp add: pow2_minus pow2_add power_add field_simps diff_conv_add_uminus
        del: add_uminus_conv_diff)
qed

section \<open>The range reduction of the sine\<close>

lemmas operator_eval =
  bind_run_def operator_plus_def operator_minus_def operator_negate_def sum_traits_def
  does_addition_overflow_def does_subtraction_overflow_def normalize_fixed_def
  normalize_left_def normalize_right_def shifts_left_def shifts_right_def to_int_def
  set_value_to_def assign_def int_t_least_def uint_t_least_def least_width_def host_widths_def
  intmax_t_def uintmax_t_def mask_eq_exp_minus_1

lemma constants_16:
  "CONST_PI \<lparr>storage_type = Int_type True 32, bits_for_integral = 15, bits_for_fractional = 16,
       scaling_factor_exponent = 0, overflow_policy = Raise, underflow_policy = Raise\<rparr>
     = Some ([], 205887)"
  "CONST_2PI \<lparr>storage_type = Int_type True 32, bits_for_integral = 15, bits_for_fractional = 16,
       scaling_factor_exponent = 0, overflow_policy = Raise, underflow_policy = Raise\<rparr>
     = Some ([], 411775)"
  "CONST_PI_2 \<lparr>storage_type = Int_type True 32, bits_for_integral = 15, bits_for_fractional = 16,
       scaling_factor_exponent = 0, overflow_policy = Raise, underflow_policy = Raise\<rparr>
     = Some ([], 102944)"
  "CONST_LOG2E \<lparr>storage_type = Int_type True 32, bits_for_integral = 15, bits_for_fractional = 16,
       scaling_factor_exponent = 0, overflow_policy = Raise, underflow_policy = Raise\<rparr>
     = Some ([], 94548)"
  by (simp_all add: CONST_PI_def CONST_2PI_def CONST_PI_2_def CONST_LOG2E_def machine_eval format_eval construction_eval)

text \<open>
  Claim C5 at a failing input, in the signed format with 16 fractional bits stored in
  32 bits, where \<open>\<pi>/2\<close> has the stored integer \<open>102944\<close>. For the angle \<open>-2.0\<close> the
  remainder is \<open>-2.0\<close>, \<open>x\<close> is \<open>\<pi> + 2.0\<close>, and the reduction ends with \<open>arg = 2.0\<close>, the
  stored integer \<open>131072\<close>, and \<open>sign = -1\<close>: \<open>arg\<close> is beyond \<open>\<pi>/2\<close>. For the angle \<open>-\<pi>\<close>
  it ends with \<open>arg = \<pi>\<close>.
\<close>

theorem sin_reduction_leaves_interval:
  "sin_range_reduction (\<lambda>v. False) 
     \<lparr>storage_type = Int_type True 32, bits_for_integral = 15, bits_for_fractional = 16,
       scaling_factor_exponent = 0, overflow_policy = Raise, underflow_policy = Raise\<rparr>
     (- 131072) = Some ([], 131072, - 1) \<and>
   sin_range_reduction (\<lambda>v. False) 
     \<lparr>storage_type = Int_type True 32, bits_for_integral = 15, bits_for_fractional = 16,
       scaling_factor_exponent = 0, overflow_policy = Raise, underflow_policy = Raise\<rparr>
     (- 205887) = Some ([], 205887, - 1) \<and>
   CONST_PI_2 
     \<lparr>storage_type = Int_type True 32, bits_for_integral = 15, bits_for_fractional = 16,
       scaling_factor_exponent = 0, overflow_policy = Raise, underflow_policy = Raise\<rparr>
     = Some ([], 102944)"
  by (simp add: sin_range_reduction_def constants_16 fmod_def cpp_rem_def cpp_div_def
      operator_eval machine_eval format_eval)

text \<open>For angles that are not negative the reduction ends within the interval.\<close>

lemma sin_reduction_examples:
  "sin_range_reduction (\<lambda>v. False) 
     \<lparr>storage_type = Int_type True 32, bits_for_integral = 15, bits_for_fractional = 16,
       scaling_factor_exponent = 0, overflow_policy = Raise, underflow_policy = Raise\<rparr>
     0 = Some ([], 0, - 1) \<and>
   sin_range_reduction (\<lambda>v. False) 
     \<lparr>storage_type = Int_type True 32, bits_for_integral = 15, bits_for_fractional = 16,
       scaling_factor_exponent = 0, overflow_policy = Raise, underflow_policy = Raise\<rparr>
     65536 = Some ([], - 65536, - 1) \<and>
   sin_range_reduction (\<lambda>v. False) 
     \<lparr>storage_type = Int_type True 32, bits_for_integral = 15, bits_for_fractional = 16,
       scaling_factor_exponent = 0, overflow_policy = Raise, underflow_policy = Raise\<rparr>
     205887 = Some ([], 0, 1) \<and>
   sin_range_reduction (\<lambda>v. False) 
     \<lparr>storage_type = Int_type True 32, bits_for_integral = 15, bits_for_fractional = 16,
       scaling_factor_exponent = 0, overflow_policy = Raise, underflow_policy = Raise\<rparr>
     300000 = Some ([], - 94113, 1)"
  by (simp add: sin_range_reduction_def constants_16 fmod_def cpp_rem_def cpp_div_def
      operator_eval machine_eval format_eval)

lemma cpp_rem_nonneg: "0 \<le> a \<Longrightarrow> 0 < b \<Longrightarrow> cpp_rem a b = a mod b"
proof -
  assume a: "0 \<le> a" and b: "0 < b"
  have "cpp_div a b = a div b"
  proof (cases "a = 0")
    case True
    then show ?thesis by (simp add: cpp_div_def)
  next
    case False
    with a b show ?thesis by (simp add: cpp_div_def)
  qed
  then show ?thesis by (simp add: cpp_rem_def minus_mult_div_eq_mod)
qed

text \<open>
  In the 32-bit format with 16 fractional bits every angle that is not negative is reduced
  into the interval: the remainder is in [0, 2 pi), one subtraction from pi and at most one
  further step bring it between the stored values of -pi/2 and pi/2.
\<close>

lemma sin_reduction_of_nonnegative:
  assumes fp: "fp = \<lparr>storage_type = Int_type True 32, bits_for_integral = 15,
      bits_for_fractional = 16, scaling_factor_exponent = 0, overflow_policy = op,
      underflow_policy = up\<rparr>"
    and val: "0 \<le> val" "val < 2 ^ 31"
  shows "\<exists>evs arg sign. sin_range_reduction dnuo fp val = Some (evs, arg, sign) \<and>
           - 102944 \<le> arg \<and> arg \<le> 102944"
proof -
  define m where "m = val mod 411775"
  have m: "0 \<le> m" "m < 411775" by (simp_all add: m_def)
  have st: "sum_traits fp = fp\<lparr>storage_type := Int_type True 64, bits_for_integral := 16\<rparr>"
    by (simp add: fp sum_traits_def int_t_least_def least_width_def host_widths_def)
  note st' = st [unfolded fp, simplified]
  have c32: "cast (Int_type True 32) v = v" if "- (2 ^ 31) \<le> v" "v < 2 ^ 31" for v
    using that by (intro cast_id) (simp add: in_range_signed)
  have c64: "cast (Int_type True 64) v = v" if "- (2 ^ 31) \<le> v" "v < 2 ^ 31" for v
    using that by (intro cast_id) (simp add: in_range_signed)
  have k: "CONST_PI fp = Some ([], 205887)" "CONST_2PI fp = Some ([], 411775)"
    "CONST_PI_2 fp = Some ([], 102944)"
    by (simp_all add: fp CONST_PI_def CONST_2PI_def CONST_PI_2_def machine_eval format_eval
        construction_eval)
  have fm: "\<exists>evs. fmod fp val 411775 = Some (evs, m)"
    using val m by (simp add: fmod_def cpp_rem_nonneg wrap_def fp m_def [symmetric] c32)
  have minus: "\<exists>evs. operator_minus fp a b = Some (evs, a - b)"
    if "- (2 ^ 30) \<le> a" "a < 2 ^ 30" "- (2 ^ 30) \<le> b" "b < 2 ^ 30" for a b
    using that
    by (simp add: operator_minus_def st Let_def builtin_arith_def promote_def in_range_signed
        wrap_def c64 st' fp split: prod.splits)
  have plus: "\<exists>evs. operator_plus fp a b = Some (evs, a + b)"
    if "- (2 ^ 30) \<le> a" "a < 2 ^ 30" "- (2 ^ 30) \<le> b" "b < 2 ^ 30" for a b
    using that
    by (simp add: operator_plus_def st Let_def builtin_arith_def promote_def in_range_signed
        wrap_def c64 st' fp split: prod.splits)
  have norm: "\<exists>evs. normalize_fixed (sum_traits fp) fp d = Some (evs, d)"
    if "- (2 ^ 30) \<le> d" "d < 2 ^ 30" for d
    using that
    by (simp add: normalize_fixed_def normalize_left_def shifts_left_def to_int_def st' fp
        shift_left_def shift_right_def promote_def Let_def c32)
  have asg: "\<exists>evs. assign (sum_traits fp) fp d = Some (evs, d)"
    if "- (2 ^ 30) \<le> d" "d < 2 ^ 30" for d
    using norm [OF that] by (auto simp: assign_def bind_run_def set_value_to_def)
  have neg: "\<exists>evs. operator_negate dnuo fp 102944 = Some (evs, - 102944)"
    by (simp add: operator_negate_def fp Let_def promote_def type_min_def wrap_def c32
        split: prod.splits)
  from fm obtain e1 where f1: "fmod fp val 411775 = Some (e1, m)" by blast
  from minus [of 205887 m] m obtain e2 where
    f2: "operator_minus fp 205887 m = Some (e2, 205887 - m)" by auto
  define x where "x = 205887 - m"
  have x: "- 205887 \<le> x" "x \<le> 205887" using m by (simp_all add: x_def)
  from norm [of x] x obtain e3 where
    f3: "normalize_fixed (sum_traits fp) fp x = Some (e3, x)" by auto
  from neg obtain e4 where f4: "operator_negate dnuo fp 102944 = Some (e4, - 102944)" by blast
  from plus [of x 205887] x obtain e5 where
    f5: "operator_plus fp x 205887 = Some (e5, x + 205887)" by auto
  from minus [of x 205887] x obtain e6 where
    f6: "operator_minus fp x 205887 = Some (e6, x - 205887)" by auto
  from asg [of "x + 205887"] x obtain e7 where
    f7: "assign (sum_traits fp) fp (x + 205887) = Some (e7, x + 205887)" by auto
  from asg [of "x - 205887"] x obtain e8 where
    f8: "assign (sum_traits fp) fp (x - 205887) = Some (e8, x - 205887)" by auto
  show ?thesis
    using x
    by (simp add: sin_range_reduction_def k f1 f2 [folded x_def] f3 f4 f5 f6 f7 f8 bind_run_def)
qed

section \<open>The hyperbolic sine\<close>

lemma bind_run_return: "bind_run (Some ([], a)) k = k a"
  by (cases "k a") (auto simp: bind_run_def)

lemma sinh_arg_one:
  "sinh_arg (\<lambda>x y. False)
     \<lparr>storage_type = Int_type True 32, bits_for_integral = 15, bits_for_fractional = 16,
       scaling_factor_exponent = 0, overflow_policy = Raise, underflow_policy = Raise\<rparr>
     65536 = Some ([], 94548)"
  by (simp add: sinh_arg_def constants_16 operator_multiply_def mult_of_def operator_eval machine_eval format_eval)

text \<open>
  Claim C8 at a failing input, in the same format. For the argument \<open>1.0\<close> the first
  statement computes \<open>arg = 1.0 * CONST_LOG2E\<close>, the stored integer \<open>94548\<close>, about
  \<open>1.4427\<close>, and the exponential is applied to \<open>arg\<close> and to \<open>-arg\<close>, whatever function it
  is, not to the argument \<open>1.0\<close>, whose stored integer is \<open>65536\<close>.
\<close>

theorem sinh_argument_is_scaled:
  "to_floating_point
     \<lparr>storage_type = Int_type True 32, bits_for_integral = 15, bits_for_fractional = 16,
       scaling_factor_exponent = 0, overflow_policy = Raise, underflow_policy = Raise\<rparr>
     65536 = 1 \<and>
   sinh_arg (\<lambda>x y. False)
     \<lparr>storage_type = Int_type True 32, bits_for_integral = 15, bits_for_fractional = 16,
       scaling_factor_exponent = 0, overflow_policy = Raise, underflow_policy = Raise\<rparr>
     65536 = Some ([], 94548) \<and>
   sinh_number (\<lambda>x y. False) (\<lambda>x. False) exp_fn E
     \<lparr>storage_type = Int_type True 32, bits_for_integral = 15, bits_for_fractional = 16,
       scaling_factor_exponent = 0, overflow_policy = Raise, underflow_policy = Raise\<rparr>
     65536 =
     bind_run (exp_fn 94548) (\<lambda>a.
     bind_run (exp_fn (- 94548)) (\<lambda>b.
       sinh_of_exponents E
         \<lparr>storage_type = Int_type True 32, bits_for_integral = 15, bits_for_fractional = 16,
           scaling_factor_exponent = 0, overflow_policy = Raise, underflow_policy = Raise\<rparr>
         a b))"
proof -
  have n: "operator_negate (\<lambda>x. False)
     \<lparr>storage_type = Int_type True 32, bits_for_integral = 15, bits_for_fractional = 16,
       scaling_factor_exponent = 0, overflow_policy = Raise, underflow_policy = Raise\<rparr>
     94548 = Some ([], - 94548)"
    by (simp add: operator_negate_def machine_eval format_eval)
  have t: "to_floating_point
     \<lparr>storage_type = Int_type True 32, bits_for_integral = 15, bits_for_fractional = 16,
       scaling_factor_exponent = 0, overflow_policy = Raise, underflow_policy = Raise\<rparr>
     65536 = 1"
    by (simp add: to_floating_point_def scaling_factor_def pow2_def scale_def)
  show ?thesis
    unfolding sinh_number_def sinh_arg_one bind_run_return n t by simp
qed

section \<open>The domain of the inverse hyperbolic tangent\<close>







end
